theory Spec2Isabelle
  imports Main "HOL-Library.Sublist"
begin

section \<open>Python strings and numbers used by the scraper\<close>

text \<open>
  A Python \<open>str\<close> is modelled by a HOL \<open>string\<close>; every \<open>char\<close> stands for the code
  point of the same number, so the model covers the texts whose code points are below 256.
  Two notions of white space are kept apart: \<open>str.strip\<close> removes every character for
  which \<open>str.isspace\<close> holds, the separators \<open>U+001C\<close> to \<open>U+001F\<close> among them, whereas
  \<open>int\<close> and \<open>float\<close> skip only the six ASCII blanks and the white space beyond ASCII
  around a numeral, and raise on a separator. Column labels of the input table are only
  ever compared for equality; the labels that the source writes in Hangul are given by
  their UTF-8 bytes.
\<close>

datatype pyexn = ValueError | OverflowError | AttributeError | KeyError | WebDriverException

definition is_digit :: "char \<Rightarrow> bool" where
  "is_digit c = (c \<in> set ''0123456789'')"

definition digit_val :: "char \<Rightarrow> int" where
  "digit_val c = of_char c - 48"

definition digits_val :: "string \<Rightarrow> int" where
  "digits_val ds = foldl (\<lambda>a c. 10 * a + digit_val c) 0 ds"

definition is_space :: "char \<Rightarrow> bool" where
  \<comment> \<open>\<open>str.isspace\<close> on the code points below 256\<close>
  "is_space c = ((of_char c :: int) \<in> {9, 10, 11, 12, 13, 28, 29, 30, 31, 32, 133, 160})"

definition py_strip :: "string \<Rightarrow> string" where
  \<comment> \<open>\<open>s.strip()\<close>\<close>
  "py_strip s = rev (dropWhile is_space (rev (dropWhile is_space s)))"

definition is_number_space :: "char \<Rightarrow> bool" where
  \<comment> \<open>the characters that \<open>int\<close> and \<open>float\<close> skip around a numeral, on the code points
      below 256: tab, line feed, vertical tab, form feed, carriage return, space, and the
      two white-space characters beyond ASCII, \<open>U+0085\<close> and \<open>U+00A0\<close>\<close>
  "is_number_space c = ((of_char c :: int) \<in> {9, 10, 11, 12, 13, 32, 133, 160})"

definition number_strip :: "string \<Rightarrow> string" where
  \<comment> \<open>the numeral that \<open>int\<close> and \<open>float\<close> read, without the white space around it\<close>
  "number_strip s = rev (dropWhile is_number_space (rev (dropWhile is_number_space s)))"

definition ascii_upper_char :: "char \<Rightarrow> char" where
  "ascii_upper_char c = (if c \<in> set ''abcdefghijklmnopqrstuvwxyz''
                         then char_of (of_char c - (32::int)) else c)"

definition ascii_upper :: "string \<Rightarrow> string" where
  \<comment> \<open>for the comparisons that ignore the case of ASCII letters\<close>
  "ascii_upper s = map ascii_upper_char s"

definition upper_char :: "char \<Rightarrow> string" where
  \<comment> \<open>the capital of one character: the ASCII letters, the letters \<open>U+00E0\<close> to \<open>U+00FE\<close>
      (the division sign \<open>U+00F7\<close> apart), and the sharp s, which becomes \<open>SS\<close>. The capitals
      of \<open>U+00B5\<close> and \<open>U+00FF\<close> lie beyond code point 255; these two are left as they are\<close>
  "upper_char c =
     (let n = (of_char c :: int)
      in if 97 \<le> n \<and> n \<le> 122 then [char_of (n - 32)]
         else if n = 223 then ''SS''
         else if 224 \<le> n \<and> n \<le> 254 \<and> n \<noteq> 247 then [char_of (n - 32)]
         else [c])"

definition py_upper :: "string \<Rightarrow> string" where
  \<comment> \<open>\<open>s.upper()\<close>\<close>
  "py_upper s = concat (map upper_char s)"

definition remove_char :: "char \<Rightarrow> string \<Rightarrow> string" where
  \<comment> \<open>\<open>s.replace(c, '')\<close> for a one-character \<open>c\<close>\<close>
  "remove_char c s = filter (\<lambda>x. x \<noteq> c) s"

fun underscores_ok :: "char \<Rightarrow> string \<Rightarrow> bool" where
  \<comment> \<open>the numeric literal rule: an underscore stands between two digits;
      the first argument is the previous character\<close>
  "underscores_ok prev [] = (prev \<noteq> CHR ''_'')"
| "underscores_ok prev (c # cs) =
     (if c = CHR ''_'' then is_digit prev \<and> underscores_ok c cs
      else (prev = CHR ''_'' \<longrightarrow> is_digit c) \<and> underscores_ok c cs)"

definition strip_sign :: "string \<Rightarrow> bool \<times> string" where
  \<comment> \<open>an optional sign; the flag says that the literal is negative\<close>
  "strip_sign s = (case s of
       [] \<Rightarrow> (False, [])
     | c # cs \<Rightarrow> if c = CHR ''-'' then (True, cs)
                else if c = CHR ''+'' then (False, cs) else (False, s))"

definition int_max_str_digits :: nat where
  \<comment> \<open>the interpreter's default limit on the digits of a decimal integer literal\<close>
  "int_max_str_digits = 4300"

definition py_int :: "string \<Rightarrow> pyexn + int" where
  \<comment> \<open>\<open>int(s)\<close> for a string: base 10, surrounding white space, a sign, digits with
      single underscores between them\<close>
  "py_int s =
     (let (neg, body) = strip_sign (number_strip s);
          ds = remove_char (CHR ''_'') body
      in if ds = [] \<or> \<not> list_all (\<lambda>c. is_digit c \<or> c = CHR ''_'') body
            \<or> \<not> underscores_ok (CHR '' '') body
            \<or> int_max_str_digits < length ds
         then Inl ValueError
         else Inr (if neg then - digits_val ds else digits_val ds))"

subsection \<open>Binary floating point\<close>

text \<open>
  A Python \<open>float\<close> is an IEEE 754 binary64 number. A finite one is kept as the pair
  \<open>(m, e)\<close> of an integer significand and an exponent, of value \<open>m * 2 ^ e\<close>; the sign of
  zero is not kept, since the scraper only ever truncates a float to an integer.
\<close>

datatype pyfloat = Finite int int | Infinite bool | NaN

function bit_length :: "int \<Rightarrow> nat" where
  "bit_length n = (if n \<le> 0 then 0 else Suc (bit_length (n div 2)))"
  by pat_completeness auto
termination
  by (relation "measure nat") auto

definition round_half_even :: "int \<Rightarrow> int \<Rightarrow> int" where
  \<comment> \<open>the integer nearest to \<open>n / d\<close>, ties to the even one; \<open>0 \<le> n\<close> and \<open>0 < d\<close>\<close>
  "round_half_even n d =
     (let q = n div d; r = n mod d
      in if 2 * r < d then q
         else if d < 2 * r then q + 1
         else if even q then q else q + 1)"

definition floor_log2 :: "int \<Rightarrow> int \<Rightarrow> int" where
  \<comment> \<open>the integer part of the binary logarithm of \<open>n / d\<close>, for positive \<open>n\<close> and \<open>d\<close>\<close>
  "floor_log2 n d =
     (let k = int (bit_length n) - int (bit_length d)
      in if (if 0 \<le> k then d * 2 ^ nat k \<le> n else d \<le> n * 2 ^ nat (- k))
         then k else k - 1)"

definition round_double :: "bool \<Rightarrow> int \<Rightarrow> int \<Rightarrow> pyfloat" where
  \<comment> \<open>the binary64 number nearest to \<open>n / d\<close>, negated when the flag is set (ties to
      even, gradual underflow, overflow to infinity); \<open>0 \<le> n\<close> and \<open>0 < d\<close>\<close>
  "round_double neg n d =
     (if n = 0 then Finite 0 0
      else let e = max (- 1074) (floor_log2 n d - 52);
               m = (if 0 \<le> e then round_half_even n (d * 2 ^ nat e)
                    else round_half_even (n * 2 ^ nat (- e)) d)
           in if 971 < e \<or> (e = 971 \<and> m = 2 ^ 53) then Infinite neg
              else Finite (if neg then - m else m) e)"

definition float_mul_int :: "pyfloat \<Rightarrow> int \<Rightarrow> pyfloat" where
  \<comment> \<open>\<open>x * k\<close> for a float \<open>x\<close> and a positive integer \<open>k\<close> that is itself a binary64
      number: the exact product, rounded\<close>
  "float_mul_int x k = (case x of
       NaN \<Rightarrow> NaN
     | Infinite neg \<Rightarrow> Infinite neg
     | Finite m e \<Rightarrow>
         if 0 \<le> e then round_double (m < 0) (\<bar>m\<bar> * k * 2 ^ nat e) 1
         else round_double (m < 0) (\<bar>m\<bar> * k) (2 ^ nat (- e)))"

definition int_of_float :: "pyfloat \<Rightarrow> pyexn + int" where
  \<comment> \<open>\<open>int(x)\<close> for a float: truncation towards zero\<close>
  "int_of_float x = (case x of
       NaN \<Rightarrow> Inl ValueError
     | Infinite _ \<Rightarrow> Inl OverflowError
     | Finite m e \<Rightarrow>
         if 0 \<le> e then Inr (m * 2 ^ nat e)
         else Inr (if m < 0 then - (\<bar>m\<bar> div 2 ^ nat (- e)) else m div 2 ^ nat (- e)))"

definition parse_exponent :: "string \<Rightarrow> int option" where
  \<comment> \<open>what follows the significand: nothing, or \<open>e\<close>, an optional sign and digits\<close>
  "parse_exponent s = (case s of
       [] \<Rightarrow> Some 0
     | c # cs \<Rightarrow>
         if c = CHR ''e'' \<or> c = CHR ''E'' then
           (let (neg, ds) = strip_sign cs
            in if ds = [] \<or> \<not> list_all is_digit ds then None
               else Some (if neg then - digits_val ds else digits_val ds))
         else None)"

definition parse_decimal :: "bool \<Rightarrow> string \<Rightarrow> pyfloat option" where
  \<comment> \<open>an unsigned decimal literal: digits, an optional point and digits, an optional
      exponent; at least one digit in the significand\<close>
  "parse_decimal neg s =
     (let ip = takeWhile is_digit s; r1 = dropWhile is_digit s;
          has_point = (r1 \<noteq> [] \<and> hd r1 = CHR ''.'');
          fp = (if has_point then takeWhile is_digit (tl r1) else []);
          r2 = (if has_point then dropWhile is_digit (tl r1) else r1)
      in if ip = [] \<and> fp = [] then None
         else case parse_exponent r2 of
                None \<Rightarrow> None
              | Some x \<Rightarrow>
                  let m = digits_val (ip @ fp); p = x - int (length fp)
                  in Some (if 0 \<le> p then round_double neg (m * 10 ^ nat p) 1
                           else round_double neg m (10 ^ nat (- p))))"

definition py_float :: "string \<Rightarrow> pyexn + pyfloat" where
  \<comment> \<open>\<open>float(s)\<close> for a string\<close>
  "py_float s =
     (let t = number_strip s
      in if CHR ''_'' \<in> set t \<and> \<not> underscores_ok (CHR '' '') t then Inl ValueError
         else let (neg, body) = strip_sign (remove_char (CHR ''_'') t);
                  u = ascii_upper body
              in if u = ''INF'' \<or> u = ''INFINITY'' then Inr (Infinite neg)
                 else if u = ''NAN'' then Inr NaN
                 else case parse_decimal neg body of
                        None \<Rightarrow> Inl ValueError
                      | Some x \<Rightarrow> Inr x)"

section \<open>Count parser\<close>

definition try_or_zero :: "pyexn + int \<Rightarrow> pyexn + int" where
  \<comment> \<open>\<open>try: return e\<close> \<open>except: return 0\<close>\<close>
  "try_or_zero r = (case r of Inl _ \<Rightarrow> Inr 0 | Inr v \<Rightarrow> Inr v)"

definition scaled_count :: "string \<Rightarrow> char \<Rightarrow> int \<Rightarrow> pyexn + int" where
  \<comment> \<open>\<open>int(float(count_text.replace(suffix, '')) * multiplier)\<close>\<close>
  "scaled_count t sfx multiplier =
     (case py_float (remove_char sfx t) of
        Inl e \<Rightarrow> Inl e
      | Inr x \<Rightarrow> int_of_float (float_mul_int x multiplier))"

definition parse_count :: "string \<Rightarrow> pyexn + int" where
  \<comment> \<open>\<open>_parse_count\<close>; \<open>Inl\<close> would be an exception that reaches the caller\<close>
  "parse_count count_text =
     (if count_text = [] then Inr 0
      else let t = remove_char (CHR '','') (py_upper count_text)
           in if CHR ''K'' \<in> set t then try_or_zero (scaled_count t (CHR ''K'') 1000)
              else if CHR ''M'' \<in> set t then try_or_zero (scaled_count t (CHR ''M'') 1000000)
              else try_or_zero (py_int t))"

definition first_digit_run :: "string \<Rightarrow> string" where
  \<comment> \<open>the first match of the pattern \<open>\d+\<close>, empty when there is none\<close>
  "first_digit_run s = takeWhile is_digit (dropWhile (\<lambda>c. \<not> is_digit c) s)"

definition parse_reply_count :: "string \<Rightarrow> pyexn + int" where
  \<comment> \<open>\<open>_parse_reply_count\<close>\<close>
  "parse_reply_count reply_text =
     (let ds = first_digit_run reply_text
      in if ds = [] then Inr 0 else try_or_zero (py_int ds))"

definition conversion_fails :: "string \<Rightarrow> bool" where
  \<comment> \<open>the text is empty, or the conversion that \<open>_parse_count\<close> attempts on it raises\<close>
  "conversion_fails s =
     (s = [] \<or>
      (let t = remove_char (CHR '','') (py_upper s)
       in if CHR ''K'' \<in> set t then isl (scaled_count t (CHR ''K'') 1000)
          else if CHR ''M'' \<in> set t then isl (scaled_count t (CHR ''M'') 1000000)
          else isl (py_int t)))"

section \<open>Extraction pipeline\<close>

text \<open>
  A rendered comment node is the snapshot of what its element lookups give: the text of
  each sub-element, \<open>None\<close> where the lookup (or reading the text) raises, and for each
  marker whether the lookup succeeds. A comment thread is its \<open>#comment\<close> sub-element,
  \<open>None\<close> where that lookup raises.
\<close>

record comment_node =
  content_text :: "string option"
  author_text :: "string option"
  vote_count_middle :: "string option"
  more_replies :: "string option"
  published_time :: "string option"
  dislike_marker :: bool
  pinned_marker :: bool
  creator_heart :: bool

type_synonym thread = "comment_node option"

datatype cell = CInt int | CFloat pyfloat | CStr string | CBool bool

type_synonym label = string

record comment_data =
  comment_text :: string
  author_name :: string
  upvotes :: int
  downvotes :: int
  has_dislike_button :: bool
  reply_count :: int
  timestamp :: string
  is_pinned :: bool
  is_hearted :: bool

record comment_record = comment_data +
  video_no :: cell
  video_date :: cell
  channel_name :: cell
  video_title :: cell
  video_url :: cell
  total_comments :: cell
  total_likes :: cell
  total_views :: cell
  scraped_at :: string
  comment_position :: nat

definition stripped_text :: "string option \<Rightarrow> string" where
  \<comment> \<open>\<open>try: element.text.strip()\<close> \<open>except: ""\<close>\<close>
  "stripped_text t = (case t of None \<Rightarrow> [] | Some s \<Rightarrow> py_strip s)"

definition count_or_zero :: "(string \<Rightarrow> pyexn + int) \<Rightarrow> string option \<Rightarrow> int" where
  \<comment> \<open>\<open>try: parse(element.text.strip())\<close> \<open>except: 0\<close>\<close>
  "count_or_zero parse t = (case t of
       None \<Rightarrow> 0
     | Some s \<Rightarrow> (case parse (py_strip s) of Inl _ \<Rightarrow> 0 | Inr v \<Rightarrow> v))"

definition extract_comment_data :: "comment_node \<Rightarrow> comment_data option" where
  \<comment> \<open>\<open>extract_comment_data\<close> with \<open>_extract_basic_comment_info\<close>,
      \<open>_extract_engagement_metrics\<close> and \<open>_extract_comment_metadata\<close>\<close>
  "extract_comment_data n =
     (let d = \<lparr> comment_text = stripped_text (content_text n),
                 author_name = stripped_text (author_text n),
                 upvotes = count_or_zero parse_count (vote_count_middle n),
                 downvotes = 0,
                 has_dislike_button = dislike_marker n,
                 reply_count = count_or_zero parse_reply_count (more_replies n),
                 timestamp = stripped_text (published_time n),
                 is_pinned = pinned_marker n,
                 is_hearted = creator_heart n \<rparr>
      in if comment_text d \<noteq> [] then Some d else None)"

subsection \<open>The browser and the clock\<close>

text \<open>
  Everything outside the program (the browser driver and the clock) is a state of type
  \<open>'w\<close> that each call takes and returns, with the outcome of the call. The driver-only
  routines of the source (\<open>_youtube_specific_scroll\<close>, \<open>_extra_patient_scroll\<close>,
  \<open>_scroll_to_comments_section\<close>, \<open>check_video_availability\<close>, \<open>setup_chrome_driver\<close>)
  are calls of this kind, each with the outcomes its own exception handlers leave open:
  \<open>Inl\<close> is an exception that leaves the routine.
\<close>

record 'w browser =
  now_isoformat :: "'w \<Rightarrow> string \<times> 'w"
  get_current_comments :: "'w \<Rightarrow> (pyexn + thread list) \<times> 'w"
  find_elements :: "string \<Rightarrow> 'w \<Rightarrow> (pyexn + nat) \<times> 'w"
  youtube_specific_scroll :: "'w \<Rightarrow> (pyexn + bool) \<times> 'w"
  extra_patient_scroll :: "'w \<Rightarrow> 'w"
  scroll_to_comments_section :: "'w \<Rightarrow> (pyexn + bool) \<times> 'w"
  check_video_availability :: "cell \<Rightarrow> 'w \<Rightarrow> bool \<times> 'w"
  setup_chrome_driver :: "'w \<Rightarrow> bool \<times> 'w"

definition COL_NO :: label where
  "COL_NO = ''No.''"

definition COL_URL :: label where
  "COL_URL = ''URL''"

definition COL_DATE :: label where
  "COL_DATE = [CHR 0xEB, CHR 0x82, CHR 0xA0, CHR 0xEC, CHR 0xA7, CHR 0x9C]"

definition COL_CHANNEL :: label where
  "COL_CHANNEL = [CHR 0xEC, CHR 0xB1, CHR 0x84, CHR 0xEB, CHR 0x84, CHR 0x90,
                  CHR 0xEB, CHR 0xAA, CHR 0x85]"

definition COL_TITLE :: label where
  "COL_TITLE = [CHR 0xEC, CHR 0xA0, CHR 0x9C, CHR 0xEB, CHR 0xAA, CHR 0xA9]"

definition COL_COMMENTS :: label where
  "COL_COMMENTS = [CHR 0xEB, CHR 0x8C, CHR 0x93, CHR 0xEA, CHR 0xB8, CHR 0x80, CHR 0x20,
                   CHR 0xEC, CHR 0x88, CHR 0x98]"

definition COL_LIKES :: label where
  "COL_LIKES = [CHR 0xEC, CHR 0xA2, CHR 0x8B, CHR 0xEC, CHR 0x95, CHR 0x84,
                CHR 0xEC, CHR 0x9A, CHR 0x94, CHR 0x20, CHR 0xEC, CHR 0x88, CHR 0x98]"

definition COL_VIEWS :: label where
  "COL_VIEWS = [CHR 0xEC, CHR 0xA1, CHR 0xB0, CHR 0xED, CHR 0x9A, CHR 0x8C,
                CHR 0xEC, CHR 0x88, CHR 0x98]"

definition dict_get :: "(label \<rightharpoonup> cell) \<Rightarrow> label \<Rightarrow> cell \<Rightarrow> cell" where
  \<comment> \<open>\<open>d.get(key, default)\<close>\<close>
  "dict_get d k dflt = (case d k of None \<Rightarrow> dflt | Some v \<Rightarrow> v)"

definition build_video_metadata ::
  "'w browser \<Rightarrow> comment_data \<Rightarrow> (label \<rightharpoonup> cell) \<Rightarrow> cell \<Rightarrow> nat \<Rightarrow> 'w
   \<Rightarrow> comment_record \<times> 'w" where
  \<comment> \<open>\<open>comment_data.update(self._build_video_metadata(video_data, video_url, position))\<close>:
      the keys of the two dictionaries are disjoint\<close>
  "build_video_metadata B cd video_data url position w =
     (let (instant, w') = now_isoformat B w
      in (\<lparr> comment_text = comment_text cd,
             author_name = author_name cd,
             upvotes = upvotes cd,
             downvotes = downvotes cd,
             has_dislike_button = has_dislike_button cd,
             reply_count = reply_count cd,
             timestamp = timestamp cd,
             is_pinned = is_pinned cd,
             is_hearted = is_hearted cd,
             video_no = dict_get video_data COL_NO (CStr []),
             video_date = dict_get video_data COL_DATE (CStr []),
             channel_name = dict_get video_data COL_CHANNEL (CStr []),
             video_title = dict_get video_data COL_TITLE (CStr []),
             video_url = dict_get video_data COL_URL url,
             total_comments = dict_get video_data COL_COMMENTS (CInt 0),
             total_likes = dict_get video_data COL_LIKES (CInt 0),
             total_views = dict_get video_data COL_VIEWS (CInt 0),
             scraped_at = instant,
             comment_position = position \<rparr>, w'))"

fun process_from ::
  "'w browser \<Rightarrow> nat \<Rightarrow> thread list \<Rightarrow> (label \<rightharpoonup> cell) \<Rightarrow> cell \<Rightarrow> 'w
   \<Rightarrow> comment_record list \<times> 'w" where
  \<comment> \<open>the loop of \<open>_process_comment_elements\<close> from index \<open>i\<close> on; a thread whose
      \<open>#comment\<close> lookup raises is skipped by the \<open>except\<close> clause\<close>
  "process_from B i [] video_data url w = ([], w)"
| "process_from B i (el # els) video_data url w =
     (case el of
        None \<Rightarrow> process_from B (i + 1) els video_data url w
      | Some main_comment \<Rightarrow>
          (case extract_comment_data main_comment of
             None \<Rightarrow> process_from B (i + 1) els video_data url w
           | Some cd \<Rightarrow>
               let (r, w1) = build_video_metadata B cd video_data url (i + 1) w;
                   (rs, w2) = process_from B (i + 1) els video_data url w1
               in (r # rs, w2)))"

definition process_comment_elements ::
  "'w browser \<Rightarrow> thread list \<Rightarrow> (label \<rightharpoonup> cell) \<Rightarrow> cell \<Rightarrow> 'w
   \<Rightarrow> comment_record list \<times> 'w" where
  \<comment> \<open>\<open>_process_comment_elements\<close>\<close>
  "process_comment_elements B comment_elements video_data url w =
     process_from B 0 comment_elements video_data url w"

definition extracts :: "thread \<Rightarrow> bool" where
  \<comment> \<open>the thread has a main comment and its extraction gives a record\<close>
  "extracts el = (case el of None \<Rightarrow> False | Some n \<Rightarrow> extract_comment_data n \<noteq> None)"

definition extracted :: "thread \<Rightarrow> comment_data" where
  \<comment> \<open>the record extracted from a thread for which \<open>extracts\<close> holds\<close>
  "extracted el = the (extract_comment_data (the el))"

subsection \<open>A scripted browser, for concrete runs\<close>

record world =
  clock_reads :: nat
  page :: cell
  polls :: nat
  advances :: nat

record script =
  available :: "cell \<Rightarrow> bool"
  section_found :: "cell \<Rightarrow> bool"
  threads_at :: "cell \<Rightarrow> nat \<Rightarrow> thread list"
  elements_at :: "string \<Rightarrow> cell \<Rightarrow> nat"

definition instant_text :: "nat \<Rightarrow> string" where
  "instant_text n = ''T'' @ replicate n (CHR ''+'')"

definition scripted :: "script \<Rightarrow> world browser" where
  \<comment> \<open>a driver that never raises: the page answers from the script, by the number of
      times the comment list has been queried since the page was loaded\<close>
  "scripted S =
     \<lparr> now_isoformat = (\<lambda>w. (instant_text (clock_reads w), w\<lparr>clock_reads := clock_reads w + 1\<rparr>)),
       get_current_comments =
         (\<lambda>w. (Inr (threads_at S (page w) (polls w)), w\<lparr>polls := polls w + 1\<rparr>)),
       find_elements = (\<lambda>sel w. (Inr (elements_at S sel (page w)), w)),
       youtube_specific_scroll = (\<lambda>w. (Inr True, w\<lparr>advances := advances w + 1\<rparr>)),
       extra_patient_scroll = (\<lambda>w. w),
       scroll_to_comments_section = (\<lambda>w. (Inr (section_found S (page w)), w)),
       check_video_availability =
         (\<lambda>url w. (available S url, w\<lparr>page := url, polls := 0\<rparr>)),
       setup_chrome_driver = (\<lambda>w. (True, w)) \<rparr>"

definition initial_world :: world where
  "initial_world = \<lparr> clock_reads = 0, page = CStr [], polls = 0, advances = 0 \<rparr>"

definition text_node :: "string \<Rightarrow> comment_node" where
  \<comment> \<open>a comment node that has its text and nothing else\<close>
  "text_node t = \<lparr> content_text = Some t, author_text = None, vote_count_middle = None,
                   more_replies = None, published_time = None, dislike_marker = False,
                   pinned_marker = False, creator_heart = False \<rparr>"

definition quiet_script :: script where
  "quiet_script = \<lparr> available = (\<lambda>_. True), section_found = (\<lambda>_. True),
                    threads_at = (\<lambda>_ _. []), elements_at = (\<lambda>_ _. 0) \<rparr>"

definition no_metadata :: "label \<rightharpoonup> cell" where
  "no_metadata = Map.empty"

definition sample_url :: cell where
  "sample_url = CStr ''https://www.youtube.com/watch?v=a''"

section \<open>Video filter\<close>

text \<open>
  The input table is a data frame: the ordered column labels and the rows in order, each
  row the dictionary from labels to cells that \<open>row.to_dict()\<close> gives. In a frame that
  was read from a file every row maps exactly the column labels, and a missing value is
  the cell NaN; reading a column is made total by reading NaN where a row does not map
  the label.
\<close>

record dataframe =
  columns :: "label list"
  rows :: "(label \<rightharpoonup> cell) list"

record config =
  MAX_SCROLL_ATTEMPTS :: nat
  MAX_NO_NEW_COMMENTS :: nat
  MIN_COMMENTS :: int
  MIN_LIKES :: int
  MIN_VIEWS :: int
  MAX_COMMENTS :: "int option"
  MAX_LIKES :: "int option"
  MAX_VIEWS :: "int option"

definition COL_COMMENTS_INT :: label where
  "COL_COMMENTS_INT = [CHR 0xEB, CHR 0x8C, CHR 0x93, CHR 0xEA, CHR 0xB8, CHR 0x80,
                       CHR 0xEC, CHR 0x88, CHR 0x98] @ ''_int''"

definition COL_LIKES_INT :: label where
  "COL_LIKES_INT = [CHR 0xEC, CHR 0xA2, CHR 0x8B, CHR 0xEC, CHR 0x95, CHR 0x84,
                    CHR 0xEC, CHR 0x9A, CHR 0x94, CHR 0xEC, CHR 0x88, CHR 0x98] @ ''_int''"

definition COL_VIEWS_INT :: label where
  "COL_VIEWS_INT = [CHR 0xEC, CHR 0xA1, CHR 0xB0, CHR 0xED, CHR 0x9A, CHR 0x8C,
                    CHR 0xEC, CHR 0x88, CHR 0x98] @ ''_int''"

definition helper_columns :: "label list" where
  "helper_columns = [COL_COMMENTS_INT, COL_LIKES_INT, COL_VIEWS_INT]"

definition int_or_zero :: "pyexn + pyfloat \<Rightarrow> int" where
  \<comment> \<open>\<open>try: return int(x)\<close> \<open>except: return 0\<close>, where computing \<open>x\<close> may raise too\<close>
  "int_or_zero r = (case r of
       Inl _ \<Rightarrow> 0
     | Inr x \<Rightarrow> (case int_of_float x of Inl _ \<Rightarrow> 0 | Inr v \<Rightarrow> v))"

definition parse_korean_number :: "cell \<Rightarrow> int" where
  \<comment> \<open>\<open>parse_korean_number\<close>. \<open>str\<close> of an integer cell is its decimal literal, which
      \<open>float\<close> rounds to binary64; \<open>str\<close> of a float cell is a literal that \<open>float\<close> reads
      back as the same number; \<open>str\<close> of a truth value is no number; NaN is \<open>pd.isna\<close>\<close>
  "parse_korean_number v = (case v of
       CInt i \<Rightarrow> int_or_zero (Inr (round_double (i < 0) \<bar>i\<bar> 1))
     | CFloat x \<Rightarrow> int_or_zero (Inr x)
     | CStr s \<Rightarrow> if s = [] then 0
                 else int_or_zero (py_float (remove_char (CHR '' '') (remove_char (CHR '','') s)))
     | CBool _ \<Rightarrow> 0)"

definition series :: "dataframe \<Rightarrow> label \<Rightarrow> cell list" where
  \<comment> \<open>the cells of one column, in row order\<close>
  "series df l = map (\<lambda>r. dict_get r l (CFloat NaN)) (rows df)"

definition df_get :: "dataframe \<Rightarrow> label \<Rightarrow> cell list option" where
  \<comment> \<open>\<open>df.get(label, 0)\<close>: the column, or \<open>None\<close> for the default, the integer 0\<close>
  "df_get df l = (if l \<in> set (columns df) then Some (series df l) else None)"

definition df_setitem :: "dataframe \<Rightarrow> label \<Rightarrow> cell list \<Rightarrow> dataframe" where
  \<comment> \<open>\<open>df[label] = values\<close>: an existing column is overwritten in place, a new one
      comes last\<close>
  "df_setitem df l vs =
     \<lparr> columns = (if l \<in> set (columns df) then columns df else columns df @ [l]),
       rows = map (\<lambda>(r, v). r(l \<mapsto> v)) (zip (rows df) vs) \<rparr>"

definition assign_parsed :: "label \<Rightarrow> label \<Rightarrow> dataframe \<Rightarrow> pyexn + dataframe" where
  \<comment> \<open>\<open>df[helper] = df.get(source, 0).apply(parse_korean_number)\<close>: the integer default
      has no \<open>apply\<close>\<close>
  "assign_parsed helper source df = (case df_get df source of
       None \<Rightarrow> Inl AttributeError
     | Some vs \<Rightarrow> Inr (df_setitem df helper (map (\<lambda>v. CInt (parse_korean_number v)) vs)))"

definition cell_ge :: "int \<Rightarrow> cell \<Rightarrow> bool" where
  \<comment> \<open>\<open>cell >= bound\<close> on a helper column, whose cells are integers\<close>
  "cell_ge b c = (case c of CInt v \<Rightarrow> b \<le> v | _ \<Rightarrow> False)"

definition cell_le :: "int \<Rightarrow> cell \<Rightarrow> bool" where
  \<comment> \<open>\<open>cell <= bound\<close> on a helper column\<close>
  "cell_le b c = (case c of CInt v \<Rightarrow> v \<le> b | _ \<Rightarrow> False)"

definition select_rows :: "(cell \<Rightarrow> bool) \<Rightarrow> label \<Rightarrow> dataframe \<Rightarrow> pyexn + dataframe" where
  \<comment> \<open>\<open>df[df[label] <op> bound]\<close>: the rows where the mask holds, in order\<close>
  "select_rows p l df =
     (if l \<in> set (columns df)
      then Inr (df\<lparr>rows := map fst (filter snd (zip (rows df) (map p (series df l))))\<rparr>)
      else Inl KeyError)"

definition filter_min :: "int \<Rightarrow> label \<Rightarrow> dataframe \<Rightarrow> pyexn + dataframe" where
  \<comment> \<open>\<open>if config.MIN_X > 0: df = df[df[helper] >= config.MIN_X]\<close>\<close>
  "filter_min b l df = (if 0 < b then select_rows (cell_ge b) l df else Inr df)"

definition filter_max :: "int option \<Rightarrow> label \<Rightarrow> dataframe \<Rightarrow> pyexn + dataframe" where
  \<comment> \<open>\<open>if config.MAX_X is not None: df = df[df[helper] <= config.MAX_X]\<close>\<close>
  "filter_max b l df = (case b of None \<Rightarrow> Inr df | Some m \<Rightarrow> select_rows (cell_le m) l df)"

definition drop_columns :: "label list \<Rightarrow> dataframe \<Rightarrow> dataframe" where
  \<comment> \<open>\<open>df.drop(columns=labels, errors='ignore')\<close>\<close>
  "drop_columns ls df =
     \<lparr> columns = filter (\<lambda>c. c \<notin> set ls) (columns df),
       rows = map (\<lambda>r. r |` (- set ls)) (rows df) \<rparr>"

definition and_then :: "pyexn + 'a \<Rightarrow> ('a \<Rightarrow> pyexn + 'b) \<Rightarrow> pyexn + 'b" where
  \<comment> \<open>the next statement runs unless the one before raised\<close>
  "and_then r f = (case r of Inl e \<Rightarrow> Inl e | Inr x \<Rightarrow> f x)"

definition apply_video_filters :: "config \<Rightarrow> dataframe \<Rightarrow> pyexn + dataframe" where
  \<comment> \<open>\<open>apply_video_filters\<close>, on the copy that the source makes of its argument\<close>
  "apply_video_filters cfg df =
     and_then (assign_parsed COL_COMMENTS_INT COL_COMMENTS df) (\<lambda>d1.
     and_then (assign_parsed COL_LIKES_INT COL_LIKES d1) (\<lambda>d2.
     and_then (assign_parsed COL_VIEWS_INT COL_VIEWS d2) (\<lambda>d3.
     and_then (filter_min (MIN_COMMENTS cfg) COL_COMMENTS_INT d3) (\<lambda>d4.
     and_then (filter_min (MIN_LIKES cfg) COL_LIKES_INT d4) (\<lambda>d5.
     and_then (filter_min (MIN_VIEWS cfg) COL_VIEWS_INT d5) (\<lambda>d6.
     and_then (filter_max (MAX_COMMENTS cfg) COL_COMMENTS_INT d6) (\<lambda>d7.
     and_then (filter_max (MAX_LIKES cfg) COL_LIKES_INT d7) (\<lambda>d8.
     and_then (filter_max (MAX_VIEWS cfg) COL_VIEWS_INT d8) (\<lambda>d9.
     Inr (drop_columns helper_columns d9))))))))))"

definition metric :: "label \<Rightarrow> (label \<rightharpoonup> cell) \<Rightarrow> int" where
  \<comment> \<open>the declared metric of a row, parsed\<close>
  "metric l r = parse_korean_number (dict_get r l (CFloat NaN))"

definition meets_min :: "int \<Rightarrow> int \<Rightarrow> bool" where
  "meets_min b v = (0 < b \<longrightarrow> b \<le> v)"

definition meets_max :: "int option \<Rightarrow> int \<Rightarrow> bool" where
  "meets_max b v = (case b of None \<Rightarrow> True | Some m \<Rightarrow> v \<le> m)"

definition without_helpers :: "(label \<rightharpoonup> cell) \<Rightarrow> (label \<rightharpoonup> cell)" where
  "without_helpers r = r |` (- set helper_columns)"

definition example_config :: config where
  \<comment> \<open>the thresholds of \<open>config.py\<close>\<close>
  "example_config = \<lparr> MAX_SCROLL_ATTEMPTS = 5000, MAX_NO_NEW_COMMENTS = 1,
                       MIN_COMMENTS = 10, MIN_LIKES = 0, MIN_VIEWS = 500,
                       MAX_COMMENTS = None, MAX_LIKES = None, MAX_VIEWS = None \<rparr>"

definition video_row :: "string \<Rightarrow> cell \<Rightarrow> cell \<Rightarrow> cell \<Rightarrow> (label \<rightharpoonup> cell)" where
  \<comment> \<open>a row with a URL and the three declared metrics\<close>
  "video_row u c l v = [COL_URL \<mapsto> CStr u, COL_COMMENTS \<mapsto> c, COL_LIKES \<mapsto> l, COL_VIEWS \<mapsto> v]"

definition metric_columns :: "label list" where
  "metric_columns = [COL_URL, COL_COMMENTS, COL_LIKES, COL_VIEWS]"

definition with_helpers :: "(label \<rightharpoonup> cell) \<Rightarrow> (label \<rightharpoonup> cell)" where
  \<comment> \<open>a row after the three helper columns have been assigned\<close>
  "with_helpers r =
     r(COL_COMMENTS_INT \<mapsto> CInt (metric COL_COMMENTS r),
       COL_LIKES_INT \<mapsto> CInt (metric COL_LIKES r),
       COL_VIEWS_INT \<mapsto> CInt (metric COL_VIEWS r))"

definition within_bounds :: "config \<Rightarrow> (label \<rightharpoonup> cell) \<Rightarrow> bool" where
  \<comment> \<open>the row passes each of the six bounds that is enabled\<close>
  "within_bounds cfg r =
     (meets_min (MIN_COMMENTS cfg) (metric COL_COMMENTS r)
      \<and> meets_min (MIN_LIKES cfg) (metric COL_LIKES r)
      \<and> meets_min (MIN_VIEWS cfg) (metric COL_VIEWS r)
      \<and> meets_max (MAX_COMMENTS cfg) (metric COL_COMMENTS r)
      \<and> meets_max (MAX_LIKES cfg) (metric COL_LIKES r)
      \<and> meets_max (MAX_VIEWS cfg) (metric COL_VIEWS r))"

definition has_metric_columns :: "dataframe \<Rightarrow> bool" where
  "has_metric_columns df =
     (COL_COMMENTS \<in> set (columns df) \<and> COL_LIKES \<in> set (columns df)
      \<and> COL_VIEWS \<in> set (columns df))"

definition add_col :: "label list \<Rightarrow> label \<Rightarrow> label list" where
  \<comment> \<open>the column labels after an assignment to the column \<open>h\<close>\<close>
  "add_col C h = (if h \<in> set C then C else C @ [h])"

definition views_only_config :: config where
  \<comment> \<open>only the minimum of the views is set\<close>
  "views_only_config = \<lparr> MAX_SCROLL_ATTEMPTS = 5000, MAX_NO_NEW_COMMENTS = 1,
                          MIN_COMMENTS = 0, MIN_LIKES = 0, MIN_VIEWS = 500,
                          MAX_COMMENTS = None, MAX_LIKES = None, MAX_VIEWS = None \<rparr>"

definition open_config :: config where
  \<comment> \<open>no bound is set\<close>
  "open_config = \<lparr> MAX_SCROLL_ATTEMPTS = 5000, MAX_NO_NEW_COMMENTS = 1,
                    MIN_COMMENTS = 0, MIN_LIKES = 0, MIN_VIEWS = 0,
                    MAX_COMMENTS = None, MAX_LIKES = None, MAX_VIEWS = None \<rparr>"

definition three_videos :: dataframe where
  \<comment> \<open>three videos with the declared views 100, 500 and 900\<close>
  "three_videos =
     \<lparr> columns = metric_columns,
       rows = [video_row ''https://www.youtube.com/watch?v=one'' (CInt 0) (CStr ''1,024'') (CInt 100),
               video_row ''https://www.youtube.com/watch?v=two'' (CStr '''') (CInt 7) (CStr ''500''),
               video_row ''https://www.youtube.com/watch?v=three'' (CInt 31) (CInt 0) (CInt 900)] \<rparr>"


section \<open>Adaptive scroll controller\<close>

record scroll_state =
  last_comment_count :: nat
  scroll_attempts :: nat
  no_new_comments_count :: nat

definition has_new_comments :: "nat \<Rightarrow> nat \<Rightarrow> bool" where
  \<comment> \<open>\<open>_has_new_comments\<close>\<close>
  "has_new_comments current_count last_count = (last_count < current_count)"

fun final_attempts :: "'w browser \<Rightarrow> nat \<Rightarrow> nat \<Rightarrow> 'w \<Rightarrow> (pyexn + bool) \<times> 'w" where
  \<comment> \<open>the loop of \<open>_try_final_scroll\<close> with \<open>k\<close> attempts left\<close>
  "final_attempts B 0 last_count w = (Inr False, w)"
| "final_attempts B (Suc k) last_count w =
     (case youtube_specific_scroll B w of
        (Inl e, w1) \<Rightarrow> (Inl e, w1)
      | (Inr _, w1) \<Rightarrow>
          (case get_current_comments B w1 of
             (Inl e, w2) \<Rightarrow> (Inl e, w2)
           | (Inr final_comments, w2) \<Rightarrow>
               if last_count < length final_comments then (Inr True, w2)
               else final_attempts B k last_count w2))"

definition try_final_scroll :: "'w browser \<Rightarrow> nat \<Rightarrow> 'w \<Rightarrow> (pyexn + bool) \<times> 'w" where
  \<comment> \<open>\<open>_try_final_scroll\<close>: \<open>for attempt in range(3)\<close>\<close>
  "try_final_scroll B last_count w = final_attempts B 3 last_count w"

definition detect_related_videos_section :: "'w browser \<Rightarrow> 'w \<Rightarrow> bool \<times> 'w" where
  \<comment> \<open>\<open>_detect_related_videos_section\<close>; an exception of a lookup is caught and gives
      \<open>False\<close>\<close>
  "detect_related_videos_section B w =
     (case find_elements B ''ytd-compact-video-renderer'' w of
        (Inl _, w1) \<Rightarrow> (False, w1)
      | (Inr related_videos, w1) \<Rightarrow>
          if 15 < related_videos then
            (case find_elements B ''#comments'' w1 of
               (Inl _, w2) \<Rightarrow> (False, w2)
             | (Inr comments_area, w2) \<Rightarrow>
                 (case find_elements B ''ytd-continuation-item-renderer'' w2 of
                    (Inl _, w3) \<Rightarrow> (False, w3)
                  | (Inr continuation_items, w3) \<Rightarrow>
                      if 0 < comments_area \<or> 0 < continuation_items then (False, w3)
                      else (True, w3)))
          else (False, w1))"

definition should_stop_scrolling ::
  "'w browser \<Rightarrow> config \<Rightarrow> nat \<Rightarrow> nat \<Rightarrow> 'w \<Rightarrow> (pyexn + bool) \<times> 'w" where
  \<comment> \<open>\<open>_should_stop_scrolling\<close>\<close>
  "should_stop_scrolling B cfg no_new_count last_count w =
     (if MAX_NO_NEW_COMMENTS cfg \<le> no_new_count then
        (case try_final_scroll B last_count w of
           (Inl e, w1) \<Rightarrow> (Inl e, w1)
         | (Inr found_more, w1) \<Rightarrow> (Inr (\<not> found_more), w1))
      else if 15 \<le> no_new_count \<and> last_count < 100 then
        (case detect_related_videos_section B w of
           (True, w1) \<Rightarrow> (Inr True, w1)
         | (False, w1) \<Rightarrow> (Inr False, w1))
      else (Inr False, w))"

definition scroll_iteration ::
  "'w browser \<Rightarrow> config \<Rightarrow> scroll_state \<Rightarrow> 'w \<Rightarrow> (pyexn + bool \<times> scroll_state) \<times> 'w" where
  \<comment> \<open>one run of the body of the \<open>while\<close> loop of \<open>_perform_smart_scroll\<close>, from the
      state at the loop head; the flag of the result says that the loop breaks\<close>
  "scroll_iteration B cfg s w =
     (let s1 = s\<lparr>scroll_attempts := scroll_attempts s + 1\<rparr>
      in case youtube_specific_scroll B w of
           (Inl e, w1) \<Rightarrow> (Inl e, w1)
         | (Inr success, w1) \<Rightarrow>
             (case get_current_comments B w1 of
                (Inl e, w2) \<Rightarrow> (Inl e, w2)
              | (Inr current_comments, w2) \<Rightarrow>
                  if has_new_comments (length current_comments) (last_comment_count s1) then
                    (Inr (False, s1\<lparr>last_comment_count := length current_comments,
                                     no_new_comments_count := 0\<rparr>), w2)
                  else
                    let s2 = s1\<lparr>no_new_comments_count := no_new_comments_count s1 + 1\<rparr>;
                        w3 = (if MAX_NO_NEW_COMMENTS cfg div 2 \<le> no_new_comments_count s2
                                 \<and> last_comment_count s2 < 50
                              then extra_patient_scroll B w2 else w2)
                    in case should_stop_scrolling B cfg (no_new_comments_count s2)
                              (last_comment_count s2) w3 of
                         (Inl e, w4) \<Rightarrow> (Inl e, w4)
                       | (Inr stop, w4) \<Rightarrow> (Inr (stop, s2), w4)))"

function scroll_loop ::
  "'w browser \<Rightarrow> config \<Rightarrow> scroll_state \<Rightarrow> 'w \<Rightarrow> (pyexn + scroll_state) \<times> 'w" where
  \<comment> \<open>\<open>while scroll_attempts < config.MAX_SCROLL_ATTEMPTS\<close>\<close>
  "scroll_loop B cfg s w =
     (if scroll_attempts s < MAX_SCROLL_ATTEMPTS cfg then
        (case scroll_iteration B cfg s w of
           (Inl e, w') \<Rightarrow> (Inl e, w')
         | (Inr (stop, s'), w') \<Rightarrow> if stop then (Inr s', w') else scroll_loop B cfg s' w')
      else (Inr s, w))"
  by pat_completeness auto
termination
  by (relation "measure (\<lambda>(B, cfg, s, w). MAX_SCROLL_ATTEMPTS cfg - scroll_attempts s)")
     (auto simp: scroll_iteration_def Let_def split: prod.splits sum.splits if_splits)

function scroll_states ::
  "'w browser \<Rightarrow> config \<Rightarrow> scroll_state \<Rightarrow> 'w \<Rightarrow> scroll_state list" where
  \<comment> \<open>the states at the end of the successive iterations of the same loop\<close>
  "scroll_states B cfg s w =
     (if scroll_attempts s < MAX_SCROLL_ATTEMPTS cfg then
        (case scroll_iteration B cfg s w of
           (Inl e, w') \<Rightarrow> []
         | (Inr (stop, s'), w') \<Rightarrow> if stop then [s'] else s' # scroll_states B cfg s' w')
      else [])"
  by pat_completeness auto
termination
  by (relation "measure (\<lambda>(B, cfg, s, w). MAX_SCROLL_ATTEMPTS cfg - scroll_attempts s)")
     (auto simp: scroll_iteration_def Let_def split: prod.splits sum.splits if_splits)

declare scroll_loop.simps [simp del] scroll_states.simps [simp del]

definition perform_smart_scroll :: "'w browser \<Rightarrow> config \<Rightarrow> 'w \<Rightarrow> (pyexn + nat) \<times> 'w" where
  \<comment> \<open>\<open>_perform_smart_scroll\<close>\<close>
  "perform_smart_scroll B cfg w =
     (case get_current_comments B w of
        (Inl e, w1) \<Rightarrow> (Inl e, w1)
      | (Inr current_comments, w1) \<Rightarrow>
          (case scroll_loop B cfg \<lparr> last_comment_count = length current_comments,
                                     scroll_attempts = 0, no_new_comments_count = 0 \<rparr> w1 of
             (Inl e, w2) \<Rightarrow> (Inl e, w2)
           | (Inr s, w2) \<Rightarrow> (Inr (last_comment_count s), w2)))"

definition smart_infinite_scroll :: "'w browser \<Rightarrow> config \<Rightarrow> 'w \<Rightarrow> bool \<times> 'w" where
  \<comment> \<open>\<open>smart_infinite_scroll\<close>: every exception is caught and gives \<open>False\<close>\<close>
  "smart_infinite_scroll B cfg w =
     (case scroll_to_comments_section B w of
        (Inl _, w1) \<Rightarrow> (False, w1)
      | (Inr found, w1) \<Rightarrow>
          if \<not> found then (False, w1)
          else (case perform_smart_scroll B cfg w1 of
                  (Inl _, w2) \<Rightarrow> (False, w2)
                | (Inr comment_count, w2) \<Rightarrow> (0 < comment_count, w2)))"

definition observed_count :: "'w browser \<Rightarrow> 'w \<Rightarrow> nat option" where
  \<comment> \<open>the count that an iteration started in \<open>w\<close> queries after its advance step, if the
      iteration gets that far\<close>
  "observed_count B w =
     (case youtube_specific_scroll B w of
        (Inl e, w1) \<Rightarrow> None
      | (Inr _, w1) \<Rightarrow>
          (case get_current_comments B w1 of
             (Inl e, w2) \<Rightarrow> None
           | (Inr current_comments, w2) \<Rightarrow> Some (length current_comments)))"

section \<open>Run orchestrator\<close>

record failed_video =
  failed_url :: cell
  failed_reason :: string
  failed_timestamp :: string

record run_state =
  all_comments :: "comment_record list"
  processed_videos :: "cell list"
  failed_videos :: "failed_video list"

definition exn_text :: "pyexn \<Rightarrow> string" where
  \<comment> \<open>\<open>str(e)\<close>, up to the message of the exception\<close>
  "exn_text e = (case e of
       ValueError \<Rightarrow> ''ValueError''
     | OverflowError \<Rightarrow> ''OverflowError''
     | AttributeError \<Rightarrow> ''AttributeError''
     | KeyError \<Rightarrow> ''KeyError''
     | WebDriverException \<Rightarrow> ''WebDriverException'')"

definition record_failure :: "'w browser \<Rightarrow> cell \<Rightarrow> string \<Rightarrow> run_state \<Rightarrow> 'w \<Rightarrow> run_state \<times> 'w" where
  \<comment> \<open>\<open>self.failed_videos.append({'url': ..., 'reason': ..., 'timestamp': ...})\<close>\<close>
  "record_failure B url reason st w =
     (let (instant, w') = now_isoformat B w
      in (st\<lparr>failed_videos := failed_videos st @
               [\<lparr> failed_url = url, failed_reason = reason, failed_timestamp = instant \<rparr>]\<rparr>, w'))"

definition scrape_video_comments ::
  "'w browser \<Rightarrow> config \<Rightarrow> cell \<Rightarrow> (label \<rightharpoonup> cell) \<Rightarrow> run_state \<Rightarrow> 'w
   \<Rightarrow> (comment_record list \<times> run_state) \<times> 'w" where
  \<comment> \<open>\<open>scrape_video_comments\<close>: the comments of the video, and the run state with what
      the call appended to \<open>failed_videos\<close>\<close>
  "scrape_video_comments B cfg url video_data st w =
     (case check_video_availability B url w of
        (False, w1) \<Rightarrow>
          (let (st', w2) = record_failure B url ''Video unavailable'' st w1 in (([], st'), w2))
      | (True, w1) \<Rightarrow>
          (case smart_infinite_scroll B cfg w1 of
             (False, w2) \<Rightarrow> (([], st), w2)
           | (True, w2) \<Rightarrow>
               (case get_current_comments B w2 of
                  (Inl e, w3) \<Rightarrow>
                    (let (st', w4) = record_failure B url (exn_text e) st w3 in (([], st'), w4))
                | (Inr comment_elements, w3) \<Rightarrow>
                    (let (video_comments, w4) =
                           process_comment_elements B comment_elements video_data url w3
                     in ((video_comments, st), w4)))))"

definition process_video ::
  "'w browser \<Rightarrow> config \<Rightarrow> label list \<Rightarrow> (label \<rightharpoonup> cell) \<Rightarrow> run_state \<Rightarrow> 'w
   \<Rightarrow> run_state \<times> 'w" where
  \<comment> \<open>the body of the loop of \<open>process_videos\<close> for one row: without a \<open>URL\<close> column
      \<open>row['URL']\<close> raises, which the \<open>except\<close> clause turns into \<open>continue\<close>\<close>
  "process_video B cfg cols row st w =
     (if COL_URL \<notin> set cols then (st, w)
      else let url = dict_get row COL_URL (CFloat NaN);
               ((comments, st1), w1) = scrape_video_comments B cfg url row st w
           in if comments \<noteq> []
              then (st1\<lparr>all_comments := all_comments st1 @ comments,
                       processed_videos := processed_videos st1 @ [url]\<rparr>, w1)
              else (st1, w1))"

fun process_rows ::
  "'w browser \<Rightarrow> config \<Rightarrow> label list \<Rightarrow> (label \<rightharpoonup> cell) list \<Rightarrow> run_state \<Rightarrow> 'w
   \<Rightarrow> run_state \<times> 'w" where
  \<comment> \<open>\<open>for index, row in df_filtered.iterrows()\<close>\<close>
  "process_rows B cfg cols [] st w = (st, w)"
| "process_rows B cfg cols (row # rest) st w =
     (let (st1, w1) = process_video B cfg cols row st w
      in process_rows B cfg cols rest st1 w1)"

definition new_run :: run_state where
  \<comment> \<open>the accumulators of a fresh scraper\<close>
  "new_run = \<lparr> all_comments = [], processed_videos = [], failed_videos = [] \<rparr>"

definition process_videos ::
  "'w browser \<Rightarrow> config \<Rightarrow> dataframe \<Rightarrow> 'w \<Rightarrow> (pyexn + run_state) \<times> 'w" where
  \<comment> \<open>\<open>process_videos\<close> on the table read from the input file; an exception of the
      filter is not caught\<close>
  "process_videos B cfg df w =
     (case apply_video_filters cfg df of
        Inl e \<Rightarrow> (Inl e, w)
      | Inr df_filtered \<Rightarrow>
          (case setup_chrome_driver B w of
             (False, w1) \<Rightarrow> (Inr new_run, w1)
           | (True, w1) \<Rightarrow>
               (let (st, w2) = process_rows B cfg (columns df_filtered) (rows df_filtered)
                                 new_run w1
                in (Inr st, w2))))"

subsection \<open>Concrete runs\<close>

definition url_one :: cell where
  "url_one = CStr ''https://www.youtube.com/watch?v=one''"

definition url_two :: cell where
  "url_two = CStr ''https://www.youtube.com/watch?v=two''"

definition url_three :: cell where
  "url_three = CStr ''https://www.youtube.com/watch?v=three''"

definition second_fails :: script where
  \<comment> \<open>the second video is unavailable; the first has two comments and the third one\<close>
  "second_fails =
     \<lparr> available = (\<lambda>u. u \<noteq> url_two),
       section_found = (\<lambda>_. True),
       threads_at = (\<lambda>u _. if u = url_one then [Some (text_node ''first''), Some (text_node ''again'')]
                            else if u = url_three then [Some (text_node ''third'')]
                            else []),
       elements_at = (\<lambda>_ _. 0) \<rparr>"



definition growing :: script where
  \<comment> \<open>a list that shows one more comment at each of the first four queries\<close>
  "growing =
     \<lparr> available = (\<lambda>_. True),
       section_found = (\<lambda>_. True),
       threads_at = (\<lambda>_ n. replicate (min (Suc n) 4) (Some (text_node ''c''))),
       elements_at = (\<lambda>_ _. 0) \<rparr>"

definition start_state :: "nat \<Rightarrow> scroll_state" where
  \<comment> \<open>the loop variables before the first iteration, for an initial count\<close>
  "start_state n = \<lparr> last_comment_count = n, scroll_attempts = 0, no_new_comments_count = 0 \<rparr>"

definition after_first_query :: world where
  \<comment> \<open>the scripted page once its comment list has been queried for the initial count\<close>
  "after_first_query = initial_world\<lparr>polls := 1\<rparr>"



section \<open>Properties of the count parser\<close>

lemma parse_count_vector_abbreviated: "parse_count ''1.2K'' = Inr 1200"
  by code_simp

lemma parse_count_vector_plain: "parse_count ''950'' = Inr 950"
  by code_simp

lemma parse_count_vector_empty: "parse_count '''' = Inr 0"
  by code_simp

lemma parse_count_vector_letters: "parse_count ''abc'' = Inr 0"
  by code_simp

lemma try_or_zero_returns: "\<exists>n. try_or_zero r = Inr n"
  by (cases r) (simp_all add: try_or_zero_def)

lemma try_or_zero_failure: "isl r \<Longrightarrow> try_or_zero r = Inr 0"
  by (cases r) (simp_all add: try_or_zero_def)

lemma parse_count_returns: "\<exists>n. parse_count s = Inr n"
  unfolding parse_count_def Let_def using try_or_zero_returns by simp

lemma parse_count_failure: "conversion_fails s \<Longrightarrow> parse_count s = Inr 0"
  unfolding parse_count_def conversion_fails_def Let_def
  by (auto simp: try_or_zero_failure)

text \<open>
  C3. \<open>_parse_count\<close> maps \<open>"1.2K"\<close> to 1200, \<open>"950"\<close> to 950, the empty text to 0 and
  \<open>"abc"\<close> to 0; on every text it returns an integer and never an exception, and where
  the conversion it attempts fails the integer is 0.
\<close>

theorem parse_count_vectors_and_totality:
  "parse_count ''1.2K'' = Inr 1200 \<and> parse_count ''950'' = Inr 950
   \<and> parse_count '''' = Inr 0 \<and> parse_count ''abc'' = Inr 0
   \<and> (\<forall>s. \<exists>n. parse_count s = Inr n)
   \<and> (\<forall>s. conversion_fails s \<longrightarrow> parse_count s = Inr 0)"
  using parse_count_vector_abbreviated parse_count_vector_plain parse_count_vector_empty
    parse_count_vector_letters parse_count_returns parse_count_failure
  by blast

theorem parse_count_vectors_and_totality_witness:
  "conversion_fails ''1.2.3K'' \<and> parse_count ''1.2.3K'' = Inr 0"
proof -
  have h: "conversion_fails ''1.2.3K''"
    by code_simp
  with parse_count_vectors_and_totality show ?thesis
    by blast
qed

section \<open>Properties of the extraction pipeline\<close>

lemma extract_none_iff:
  "extract_comment_data n = None \<longleftrightarrow> stripped_text (content_text n) = []"
  by (simp add: extract_comment_data_def Let_def)

lemma extract_text_nonempty:
  "extract_comment_data n = Some d \<Longrightarrow> comment_text d \<noteq> []"
  by (auto simp: extract_comment_data_def Let_def split: if_splits)

lemma extract_defaults:
  assumes "stripped_text (content_text n) \<noteq> []"
  shows "\<exists>d. extract_comment_data n = Some d
     \<and> (author_text n = None \<longrightarrow> author_name d = [])
     \<and> (vote_count_middle n = None \<longrightarrow> upvotes d = 0)
     \<and> (more_replies n = None \<longrightarrow> reply_count d = 0)
     \<and> (published_time n = None \<longrightarrow> timestamp d = [])
     \<and> (\<not> dislike_marker n \<longrightarrow> \<not> has_dislike_button d)
     \<and> (\<not> pinned_marker n \<longrightarrow> \<not> is_pinned d)
     \<and> (\<not> creator_heart n \<longrightarrow> \<not> is_hearted d)"
  using assms
  by (simp add: extract_comment_data_def Let_def stripped_text_def count_or_zero_def)

lemma process_from_skip:
  "\<not> extracts el \<Longrightarrow>
   process_from B i (el # els) vd url w = process_from B (Suc i) els vd url w"
  by (auto simp: extracts_def split: option.splits)

lemma process_from_keep:
  "extracts el \<Longrightarrow>
   process_from B i (el # els) vd url w =
     (let (r, w1) = build_video_metadata B (extracted el) vd url (Suc i) w;
          (rs, w2) = process_from B (Suc i) els vd url w1
      in (r # rs, w2))"
  by (auto simp: extracts_def extracted_def split: option.splits)

lemma build_video_metadata_position:
  "comment_position (fst (build_video_metadata B cd vd url p w)) = p"
  by (simp add: build_video_metadata_def split: prod.splits)

lemma build_video_metadata_data:
  "comment_data.truncate (fst (build_video_metadata B cd vd url p w)) = cd"
  by (simp add: build_video_metadata_def comment_data.truncate_def split: prod.splits)

lemma kept_indices_Cons:
  "filter (\<lambda>j. P ((x # xs) ! j)) [0..<length (x # xs)] =
     (if P x then [0] else []) @ map Suc (filter (\<lambda>j. P (xs ! j)) [0..<length xs])"
  by (simp add: upt_conv_Cons map_Suc_upt [symmetric] filter_map comp_def del: upt_Suc)

lemma process_from_positions:
  "map comment_position (fst (process_from B i els vd url w)) =
     map (\<lambda>j. i + j + 1) (filter (\<lambda>j. extracts (els ! j)) [0..<length els])"
proof (induction els arbitrary: i w)
  case Nil
  then show ?case by simp
next
  case (Cons el els)
  show ?case
  proof (cases "extracts el")
    case False
    then show ?thesis
      unfolding kept_indices_Cons process_from_skip [OF False]
      by (simp add: Cons.IH comp_def)
  next
    case True
    obtain r w1 where b: "build_video_metadata B (extracted el) vd url (Suc i) w = (r, w1)"
      by (cases "build_video_metadata B (extracted el) vd url (Suc i) w")
    obtain rs w2 where p: "process_from B (Suc i) els vd url w1 = (rs, w2)"
      by (cases "process_from B (Suc i) els vd url w1")
    have "comment_position r = Suc i"
      using build_video_metadata_position [of B "extracted el" vd url "Suc i" w] b by simp
    moreover have "map comment_position rs =
        map (\<lambda>j. Suc i + j + 1) (filter (\<lambda>j. extracts (els ! j)) [0..<length els])"
      using Cons.IH [of "Suc i" w1] p by simp
    ultimately show ?thesis
      unfolding kept_indices_Cons process_from_keep [OF True] using True
      by (simp add: b p comp_def)
  qed
qed

lemma process_from_data:
  "map comment_data.truncate (fst (process_from B i els vd url w)) =
     map extracted (filter extracts els)"
proof (induction els arbitrary: i w)
  case Nil
  then show ?case by simp
next
  case (Cons el els)
  show ?case
  proof (cases "extracts el")
    case False
    then show ?thesis
      unfolding process_from_skip [OF False] by (simp add: Cons.IH)
  next
    case True
    obtain r w1 where b: "build_video_metadata B (extracted el) vd url (Suc i) w = (r, w1)"
      by (cases "build_video_metadata B (extracted el) vd url (Suc i) w")
    obtain rs w2 where p: "process_from B (Suc i) els vd url w1 = (rs, w2)"
      by (cases "process_from B (Suc i) els vd url w1")
    have "comment_data.truncate r = extracted el"
      using build_video_metadata_data [of B "extracted el" vd url "Suc i" w] b by simp
    moreover have "map comment_data.truncate rs = map extracted (filter extracts els)"
      using Cons.IH [of "Suc i" w1] p by simp
    ultimately show ?thesis
      unfolding process_from_keep [OF True] using True by (simp add: b p)
  qed
qed

lemma extracted_text_nonempty: "extracts el \<Longrightarrow> comment_text (extracted el) \<noteq> []"
  by (auto simp: extracts_def extracted_def split: option.splits dest: extract_text_nonempty)

lemma truncate_keeps_text: "comment_text (comment_data.truncate r) = comment_text r"
  by (simp add: comment_data.truncate_def)

lemma process_from_texts_nonempty:
  assumes "r \<in> set (fst (process_from B i els vd url w))"
  shows "comment_text r \<noteq> []"
proof -
  have "comment_data.truncate r \<in> set (map extracted (filter extracts els))"
    using assms process_from_data [of B i els vd url w]
    by (metis image_eqI set_map)
  then obtain el where "extracts el" "comment_data.truncate r = extracted el"
    by auto
  then show ?thesis
    using extracted_text_nonempty [of el] truncate_keeps_text [of r] by simp
qed

text \<open>
  C2. Extraction of a comment node gives no record exactly when the stripped comment
  text is missing or empty, so a record that is given has a non-empty text and so has
  every record of a batch; a node with a non-empty text always gives a record, in which
  a missing author, vote count, reply count or timestamp and an absent marker are the
  default of the field.
\<close>

theorem extraction_rejects_only_empty_text:
  "(extract_comment_data n = None \<longleftrightarrow> stripped_text (content_text n) = [])
   \<and> (\<forall>d. extract_comment_data n = Some d \<longrightarrow> comment_text d \<noteq> [])
   \<and> (\<forall>r \<in> set (fst (process_comment_elements B els vd url w)). comment_text r \<noteq> [])
   \<and> (stripped_text (content_text n) \<noteq> [] \<longrightarrow>
        (\<exists>d. extract_comment_data n = Some d
           \<and> (author_text n = None \<longrightarrow> author_name d = [])
           \<and> (vote_count_middle n = None \<longrightarrow> upvotes d = 0)
           \<and> (more_replies n = None \<longrightarrow> reply_count d = 0)
           \<and> (published_time n = None \<longrightarrow> timestamp d = [])
           \<and> (\<not> dislike_marker n \<longrightarrow> \<not> has_dislike_button d)
           \<and> (\<not> pinned_marker n \<longrightarrow> \<not> is_pinned d)
           \<and> (\<not> creator_heart n \<longrightarrow> \<not> is_hearted d)))"
  using extract_none_iff [of n] extract_text_nonempty [of n] extract_defaults [of n]
    process_from_texts_nonempty [of _ B 0 els vd url w]
  unfolding process_comment_elements_def by blast

theorem extraction_rejects_only_empty_text_witness:
  "stripped_text (content_text (text_node ''nice video '')) \<noteq> []
   \<and> author_text (text_node ''nice video '') = None
   \<and> (\<exists>d. extract_comment_data (text_node ''nice video '') = Some d
          \<and> comment_text d \<noteq> [] \<and> author_name d = [] \<and> upvotes d = 0)"
proof -
  have h: "stripped_text (content_text (text_node ''nice video '')) \<noteq> []"
    by code_simp
  have a: "author_text (text_node ''nice video '') = None"
    and v: "vote_count_middle (text_node ''nice video '') = None"
    by (simp_all add: text_node_def)
  note t = extraction_rejects_only_empty_text
             [of "text_node ''nice video ''" "scripted quiet_script" "[]" no_metadata
                 sample_url initial_world]
  from t have nonempty:
    "\<forall>d. extract_comment_data (text_node ''nice video '') = Some d \<longrightarrow> comment_text d \<noteq> []"
    by (rule conjunct2 [THEN conjunct1])
  from t [THEN conjunct2, THEN conjunct2, THEN conjunct2] h a v
  obtain d where d: "extract_comment_data (text_node ''nice video '') = Some d"
      "author_name d = []" "upvotes d = 0"
    by blast
  with nonempty have "comment_text d \<noteq> []"
    by simp
  with d h a show ?thesis
    by blast
qed

text \<open>
  C1, as the code has it. A batch gives one record for each thread that extracts, in the
  order of the threads, and the record of a thread carries as \<open>comment_position\<close> the
  1-based index of that thread in the whole batch: the positions are strictly increasing
  and lie between 1 and the number of threads, and they are 1, 2, ... exactly as long as
  no thread before them failed. A thread that fails does not end the batch.
\<close>

theorem batch_positions_are_batch_indices:
  "length (fst (process_comment_elements B els vd url w)) = length (filter extracts els)
   \<and> map comment_data.truncate (fst (process_comment_elements B els vd url w)) =
       map extracted (filter extracts els)
   \<and> map comment_position (fst (process_comment_elements B els vd url w)) =
       map Suc (filter (\<lambda>j. extracts (els ! j)) [0..<length els])
   \<and> sorted_wrt (<) (map comment_position (fst (process_comment_elements B els vd url w)))
   \<and> (\<forall>p \<in> set (map comment_position (fst (process_comment_elements B els vd url w))).
         1 \<le> p \<and> p \<le> length els)
   \<and> (list_all extracts els \<longrightarrow>
         map comment_position (fst (process_comment_elements B els vd url w)) =
           [1..<Suc (length els)])"
proof -
  let ?out = "fst (process_comment_elements B els vd url w)"
  let ?kept = "filter (\<lambda>j. extracts (els ! j)) [0..<length els]"
  have data: "map comment_data.truncate ?out = map extracted (filter extracts els)"
    unfolding process_comment_elements_def by (rule process_from_data)
  have pos: "map comment_position ?out = map Suc ?kept"
    unfolding process_comment_elements_def using process_from_positions [of B 0 els vd url w]
    by simp
  have len: "length ?out = length (filter extracts els)"
    using arg_cong [OF data, of length] by simp
  have "sorted_wrt (<) ?kept"
    by (rule sorted_wrt_filter) simp
  then have inc: "sorted_wrt (<) (map comment_position ?out)"
    unfolding pos by (simp add: sorted_wrt_map)
  have rng: "\<forall>p \<in> set (map comment_position ?out). 1 \<le> p \<and> p \<le> length els"
    unfolding pos by auto
  have all: "map comment_position ?out = [1..<Suc (length els)]" if "list_all extracts els"
  proof -
    have "?kept = [0..<length els]"
      using that by (simp add: list_all_length)
    then show ?thesis
      unfolding pos by (simp add: map_Suc_upt del: upt_Suc)
  qed
  from len data pos inc rng all show ?thesis
    by blast
qed

theorem batch_positions_are_batch_indices_witness:
  "list_all extracts [Some (text_node ''first''), Some (text_node ''second'')]
   \<and> map comment_position (fst (process_comment_elements (scripted quiet_script)
         [Some (text_node ''first''), Some (text_node ''second'')]
         no_metadata sample_url initial_world)) = [1, 2]"
proof -
  have h: "list_all extracts [Some (text_node ''first''), Some (text_node ''second'')]"
    by code_simp
  from batch_positions_are_batch_indices
         [of "scripted quiet_script" "[Some (text_node ''first''), Some (text_node ''second'')]"
             no_metadata sample_url initial_world] h
  show ?thesis by (simp add: upt_conv_Cons del: upt_Suc)
qed

text \<open>
  The claim C1 as it is written fails: in a batch of two threads of which only the
  second extracts, the one record has position 2, not 1.
\<close>

theorem batch_positions_counterexample:
  "length (filter extracts [None, Some (text_node ''hello'')]) = 1
   \<and> map comment_position (fst (process_comment_elements (scripted quiet_script)
         [None, Some (text_node ''hello'')] no_metadata sample_url initial_world)) = [2]
   \<and> map comment_position (fst (process_comment_elements (scripted quiet_script)
         [None, Some (text_node ''hello'')] no_metadata sample_url initial_world))
       \<noteq> [1..<Suc 1]"
  by code_simp

section \<open>Properties of the video filter\<close>


lemma helper_labels_distinct:
  "COL_COMMENTS_INT \<noteq> COL_LIKES_INT" "COL_COMMENTS_INT \<noteq> COL_VIEWS_INT"
  "COL_LIKES_INT \<noteq> COL_VIEWS_INT"
  by (simp_all add: COL_COMMENTS_INT_def COL_LIKES_INT_def COL_VIEWS_INT_def)

lemma metric_labels_not_helpers:
  "COL_COMMENTS \<notin> set helper_columns" "COL_LIKES \<notin> set helper_columns"
  "COL_VIEWS \<notin> set helper_columns"
  by (simp_all add: helper_columns_def COL_COMMENTS_INT_def COL_LIKES_INT_def
      COL_VIEWS_INT_def COL_COMMENTS_def COL_LIKES_def COL_VIEWS_def)

lemma map_zip_same: "map (\<lambda>(r, v). F r v) (zip xs (map G xs)) = map (\<lambda>r. F r (G r)) xs"
  by (induction xs) simp_all

lemma mask_filter: "map fst (filter snd (zip xs (map P xs))) = filter P xs"
  by (induction xs) simp_all

lemma assign_parsed_present:
  assumes "source \<in> set (columns df)"
  shows "assign_parsed helper source df =
     Inr \<lparr> columns = (if helper \<in> set (columns df) then columns df else columns df @ [helper]),
           rows = map (\<lambda>r. r(helper \<mapsto> CInt (metric source r))) (rows df) \<rparr>"
  using assms
  by (simp add: assign_parsed_def df_get_def df_setitem_def series_def metric_def
      map_zip_same [where G = "\<lambda>r. CInt (parse_korean_number (dict_get r source (CFloat NaN)))"]
      comp_def)

lemma assign_parsed_absent:
  "source \<notin> set (columns df) \<Longrightarrow> assign_parsed helper source df = Inl AttributeError"
  by (simp add: assign_parsed_def df_get_def)

lemma select_rows_present:
  "l \<in> set (columns df) \<Longrightarrow>
   select_rows p l df = Inr (df\<lparr>rows := filter (\<lambda>r. p (dict_get r l (CFloat NaN))) (rows df)\<rparr>)"
  by (simp add: select_rows_def series_def mask_filter [where P = "\<lambda>r. p (dict_get r l (CFloat NaN))"] comp_def)

lemma metric_upd: "l \<noteq> h \<Longrightarrow> metric l (r(h \<mapsto> v)) = metric l r"
  by (simp add: metric_def dict_get_def)


lemma and_then_Inr: "and_then (Inr x) f = f x"
  by (simp add: and_then_def)

lemma and_then_Inl: "and_then (Inl e) f = Inl e"
  by (simp add: and_then_def)

lemma add_col_set: "set (add_col C h) = insert h (set C)"
  by (auto simp: add_col_def)

lemma add_col_filter: "h \<in> set H \<Longrightarrow>
   filter (\<lambda>c. c \<notin> set H) (add_col C h) = filter (\<lambda>c. c \<notin> set H) C"
  by (simp add: add_col_def)

lemma with_helpers_lookup:
  "dict_get (with_helpers r) COL_COMMENTS_INT d = CInt (metric COL_COMMENTS r)"
  "dict_get (with_helpers r) COL_LIKES_INT d = CInt (metric COL_LIKES r)"
  "dict_get (with_helpers r) COL_VIEWS_INT d = CInt (metric COL_VIEWS r)"
  using helper_labels_distinct by (simp_all add: with_helpers_def dict_get_def)

lemma prepared:
  assumes "has_metric_columns df"
  shows "and_then (assign_parsed COL_COMMENTS_INT COL_COMMENTS df) (\<lambda>d1.
         and_then (assign_parsed COL_LIKES_INT COL_LIKES d1) (\<lambda>d2.
         and_then (assign_parsed COL_VIEWS_INT COL_VIEWS d2) K)) =
         K \<lparr> columns = add_col (add_col (add_col (columns df) COL_COMMENTS_INT) COL_LIKES_INT)
                          COL_VIEWS_INT,
             rows = map with_helpers (rows df) \<rparr>"
proof -
  let ?C1 = "add_col (columns df) COL_COMMENTS_INT"
  let ?C2 = "add_col ?C1 COL_LIKES_INT"
  let ?d1 = "\<lparr> columns = ?C1,
      rows = map (\<lambda>r. r(COL_COMMENTS_INT \<mapsto> CInt (metric COL_COMMENTS r))) (rows df) \<rparr>"
  let ?d2 = "\<lparr> columns = ?C2,
      rows = map (\<lambda>r. r(COL_COMMENTS_INT \<mapsto> CInt (metric COL_COMMENTS r),
                          COL_LIKES_INT \<mapsto> CInt (metric COL_LIKES r))) (rows df) \<rparr>"
  have src: "COL_COMMENTS \<in> set (columns df)" "COL_LIKES \<in> set (columns df)"
    "COL_VIEWS \<in> set (columns df)"
    using assms by (simp_all add: has_metric_columns_def)
  have ne: "COL_LIKES \<noteq> COL_COMMENTS_INT" "COL_VIEWS \<noteq> COL_COMMENTS_INT"
    "COL_VIEWS \<noteq> COL_LIKES_INT"
    using metric_labels_not_helpers by (auto simp: helper_columns_def)
  have s1: "assign_parsed COL_COMMENTS_INT COL_COMMENTS df = Inr ?d1"
    using assign_parsed_present [OF src(1), of COL_COMMENTS_INT] by (simp add: add_col_def)
  have "COL_LIKES \<in> set (columns ?d1)"
    using src by (simp add: add_col_set)
  from assign_parsed_present [OF this, of COL_LIKES_INT]
  have s2: "assign_parsed COL_LIKES_INT COL_LIKES ?d1 = Inr ?d2"
    by (simp add: add_col_def comp_def metric_upd [OF ne(1)])
  have "COL_VIEWS \<in> set (columns ?d2)"
    using src by (simp add: add_col_set)
  from assign_parsed_present [OF this, of COL_VIEWS_INT]
  have s3: "assign_parsed COL_VIEWS_INT COL_VIEWS ?d2 =
      Inr \<lparr> columns = add_col ?C2 COL_VIEWS_INT, rows = map with_helpers (rows df) \<rparr>"
    by (simp add: add_col_def comp_def metric_upd [OF ne(2)] metric_upd [OF ne(3)]
        with_helpers_def)
  show ?thesis
    by (simp only: s1 s2 s3 and_then_Inr)
qed

lemma filter_min_step:
  assumes "h \<in> set C" and "\<And>r. dict_get (with_helpers r) h (CFloat NaN) = CInt (metric src r)"
  shows "filter_min b h \<lparr> columns = C, rows = map with_helpers xs \<rparr> =
     Inr \<lparr> columns = C, rows = map with_helpers (filter (\<lambda>r. meets_min b (metric src r)) xs) \<rparr>"
  using assms
  by (simp add: filter_min_def select_rows_present filter_map comp_def cell_ge_def meets_min_def)

lemma filter_max_step:
  assumes "h \<in> set C" and "\<And>r. dict_get (with_helpers r) h (CFloat NaN) = CInt (metric src r)"
  shows "filter_max b h \<lparr> columns = C, rows = map with_helpers xs \<rparr> =
     Inr \<lparr> columns = C, rows = map with_helpers (filter (\<lambda>r. meets_max b (metric src r)) xs) \<rparr>"
  using assms
  by (cases b)
     (simp_all add: filter_max_def select_rows_present filter_map comp_def cell_le_def
        meets_max_def)

lemma without_with_helpers: "with_helpers r |` (- set helper_columns) = without_helpers r"
  by (rule ext) (simp add: with_helpers_def without_helpers_def helper_columns_def
      restrict_map_def)

lemma apply_video_filters_returns:
  assumes "has_metric_columns df"
  shows "apply_video_filters cfg df =
     Inr \<lparr> columns = filter (\<lambda>c. c \<notin> set helper_columns) (columns df),
           rows = map without_helpers (filter (within_bounds cfg) (rows df)) \<rparr>"
proof -
  let ?C = "add_col (add_col (add_col (columns df) COL_COMMENTS_INT) COL_LIKES_INT)
              COL_VIEWS_INT"
  have in_C: "COL_COMMENTS_INT \<in> set ?C" "COL_LIKES_INT \<in> set ?C" "COL_VIEWS_INT \<in> set ?C"
    by (simp_all add: add_col_set)
  have hs: "COL_COMMENTS_INT \<in> set helper_columns" "COL_LIKES_INT \<in> set helper_columns"
    "COL_VIEWS_INT \<in> set helper_columns"
    by (simp_all add: helper_columns_def)
  have cols: "filter (\<lambda>c. c \<notin> set helper_columns) ?C =
      filter (\<lambda>c. c \<notin> set helper_columns) (columns df)"
    by (simp only: add_col_filter [OF hs(1)] add_col_filter [OF hs(2)]
        add_col_filter [OF hs(3)])
  have conj: "filter (within_bounds cfg) (rows df) =
      filter (\<lambda>r. meets_max (MAX_VIEWS cfg) (metric COL_VIEWS r))
       (filter (\<lambda>r. meets_max (MAX_LIKES cfg) (metric COL_LIKES r))
        (filter (\<lambda>r. meets_max (MAX_COMMENTS cfg) (metric COL_COMMENTS r))
         (filter (\<lambda>r. meets_min (MIN_VIEWS cfg) (metric COL_VIEWS r))
          (filter (\<lambda>r. meets_min (MIN_LIKES cfg) (metric COL_LIKES r))
           (filter (\<lambda>r. meets_min (MIN_COMMENTS cfg) (metric COL_COMMENTS r)) (rows df))))))"
    by (auto simp: within_bounds_def intro: filter_cong)
  show ?thesis
    unfolding apply_video_filters_def prepared [OF assms]
    by (simp only: filter_min_step [OF in_C(1) with_helpers_lookup(1)]
        filter_min_step [OF in_C(2) with_helpers_lookup(2)]
        filter_min_step [OF in_C(3) with_helpers_lookup(3)]
        filter_max_step [OF in_C(1) with_helpers_lookup(1)]
        filter_max_step [OF in_C(2) with_helpers_lookup(2)]
        filter_max_step [OF in_C(3) with_helpers_lookup(3)]
        and_then_Inr)
       (simp add: drop_columns_def cols conj comp_def without_with_helpers)
qed

lemma apply_video_filters_raises:
  assumes "\<not> has_metric_columns df"
  shows "apply_video_filters cfg df = Inl AttributeError"
proof (cases "COL_COMMENTS \<in> set (columns df)")
  case False
  then show ?thesis
    by (simp add: apply_video_filters_def assign_parsed_absent and_then_Inl)
next
  case c: True
  let ?d1 = "\<lparr> columns = add_col (columns df) COL_COMMENTS_INT,
      rows = map (\<lambda>r. r(COL_COMMENTS_INT \<mapsto> CInt (metric COL_COMMENTS r))) (rows df) \<rparr>"
  have s1: "assign_parsed COL_COMMENTS_INT COL_COMMENTS df = Inr ?d1"
    using assign_parsed_present [OF c, of COL_COMMENTS_INT] by (simp add: add_col_def)
  have ne: "COL_LIKES \<noteq> COL_COMMENTS_INT" "COL_VIEWS \<noteq> COL_COMMENTS_INT"
    "COL_VIEWS \<noteq> COL_LIKES_INT"
    using metric_labels_not_helpers by (auto simp: helper_columns_def)
  show ?thesis
  proof (cases "COL_LIKES \<in> set (columns df)")
    case False
    then have "COL_LIKES \<notin> set (columns ?d1)"
      using ne by (simp add: add_col_set)
    then have a2: "assign_parsed COL_LIKES_INT COL_LIKES ?d1 = Inl AttributeError"
      by (rule assign_parsed_absent)
    show ?thesis
      unfolding apply_video_filters_def s1 and_then_Inr a2 and_then_Inl by (rule refl)
  next
    case l: True
    then have v: "COL_VIEWS \<notin> set (columns df)"
      using assms c by (simp add: has_metric_columns_def)
    let ?d2 = "\<lparr> columns = add_col (add_col (columns df) COL_COMMENTS_INT) COL_LIKES_INT,
      rows = map (\<lambda>r. r(COL_LIKES_INT \<mapsto> CInt (metric COL_LIKES r))) (rows ?d1) \<rparr>"
    have "COL_LIKES \<in> set (columns ?d1)"
      using l by (simp add: add_col_set)
    from assign_parsed_present [OF this, of COL_LIKES_INT]
    have s2: "assign_parsed COL_LIKES_INT COL_LIKES ?d1 = Inr ?d2"
      by (simp add: add_col_def)
    have "COL_VIEWS \<notin> set (columns ?d2)"
      using v ne by (simp add: add_col_set)
    then have a3: "assign_parsed COL_VIEWS_INT COL_VIEWS ?d2 = Inl AttributeError"
      by (rule assign_parsed_absent)
    show ?thesis
      unfolding apply_video_filters_def s1 s2 and_then_Inr a3 and_then_Inl by (rule refl)
  qed
qed

lemma metric_without_helpers:
  "l \<notin> set helper_columns \<Longrightarrow> metric l (without_helpers r) = metric l r"
  by (simp add: metric_def without_helpers_def dict_get_def restrict_map_def)

lemma within_bounds_without_helpers:
  "within_bounds cfg (without_helpers r) = within_bounds cfg r"
  by (simp add: within_bounds_def metric_without_helpers metric_labels_not_helpers)

lemma without_helpers_idem: "without_helpers (without_helpers r) = without_helpers r"
  by (simp add: without_helpers_def)


lemma filtered_has_metric_columns:
  "has_metric_columns df \<Longrightarrow>
   has_metric_columns \<lparr> columns = filter (\<lambda>c. c \<notin> set helper_columns) (columns df), rows = xs \<rparr>"
  by (simp add: has_metric_columns_def metric_labels_not_helpers)

lemma apply_video_filters_idem:
  "and_then (apply_video_filters cfg df) (apply_video_filters cfg) = apply_video_filters cfg df"
proof (cases "has_metric_columns df")
  case False
  then show ?thesis
    by (simp add: apply_video_filters_raises and_then_Inl)
next
  case True
  let ?out = "\<lparr> columns = filter (\<lambda>c. c \<notin> set helper_columns) (columns df),
                  rows = map without_helpers (filter (within_bounds cfg) (rows df)) \<rparr>"
  have once: "apply_video_filters cfg df = Inr ?out"
    by (rule apply_video_filters_returns [OF True])
  have "has_metric_columns ?out"
    by (rule filtered_has_metric_columns [OF True])
  from apply_video_filters_returns [OF this, of cfg]
  have "apply_video_filters cfg ?out = Inr ?out"
    by (simp add: filter_map comp_def within_bounds_without_helpers without_helpers_idem)
  then show ?thesis
    by (simp add: once and_then_Inr)
qed




lemma apply_video_filters_result:
  assumes "apply_video_filters cfg df = Inr out"
  shows "has_metric_columns df"
    and "columns out = filter (\<lambda>c. c \<notin> set helper_columns) (columns df)"
    and "rows out = map without_helpers (filter (within_bounds cfg) (rows df))"
proof -
  show m: "has_metric_columns df"
    using assms apply_video_filters_raises [of df cfg] by (cases "has_metric_columns df") simp_all
  from apply_video_filters_returns [OF m, of cfg] assms
  have "out = \<lparr> columns = filter (\<lambda>c. c \<notin> set helper_columns) (columns df),
                rows = map without_helpers (filter (within_bounds cfg) (rows df)) \<rparr>"
    by simp
  then show "columns out = filter (\<lambda>c. c \<notin> set helper_columns) (columns df)"
    and "rows out = map without_helpers (filter (within_bounds cfg) (rows df))"
    by simp_all
qed

lemma meets_min_zero: "meets_min 0 v"
  by (simp add: meets_min_def)

lemma meets_max_None: "meets_max None v"
  by (simp add: meets_max_def)

text \<open>
  C4. A minimum bound of exactly 0 is not applied: whenever the filter returns, with
  \<open>MIN_COMMENTS = 0\<close> the rows that it keeps are the rows that pass the other five
  bounds, whatever their declared comment count, and likewise for \<open>MIN_LIKES = 0\<close> and
  \<open>MIN_VIEWS = 0\<close>; with the three minima 0 and no maximum set no row is removed.
\<close>

theorem zero_minimum_never_excludes:
  assumes "apply_video_filters cfg df = Inr out"
  shows "(MIN_COMMENTS cfg = 0 \<longrightarrow>
           rows out = map without_helpers (filter (\<lambda>r.
               meets_min (MIN_LIKES cfg) (metric COL_LIKES r)
             \<and> meets_min (MIN_VIEWS cfg) (metric COL_VIEWS r)
             \<and> meets_max (MAX_COMMENTS cfg) (metric COL_COMMENTS r)
             \<and> meets_max (MAX_LIKES cfg) (metric COL_LIKES r)
             \<and> meets_max (MAX_VIEWS cfg) (metric COL_VIEWS r)) (rows df)))
       \<and> (MIN_LIKES cfg = 0 \<longrightarrow>
           rows out = map without_helpers (filter (\<lambda>r.
               meets_min (MIN_COMMENTS cfg) (metric COL_COMMENTS r)
             \<and> meets_min (MIN_VIEWS cfg) (metric COL_VIEWS r)
             \<and> meets_max (MAX_COMMENTS cfg) (metric COL_COMMENTS r)
             \<and> meets_max (MAX_LIKES cfg) (metric COL_LIKES r)
             \<and> meets_max (MAX_VIEWS cfg) (metric COL_VIEWS r)) (rows df)))
       \<and> (MIN_VIEWS cfg = 0 \<longrightarrow>
           rows out = map without_helpers (filter (\<lambda>r.
               meets_min (MIN_COMMENTS cfg) (metric COL_COMMENTS r)
             \<and> meets_min (MIN_LIKES cfg) (metric COL_LIKES r)
             \<and> meets_max (MAX_COMMENTS cfg) (metric COL_COMMENTS r)
             \<and> meets_max (MAX_LIKES cfg) (metric COL_LIKES r)
             \<and> meets_max (MAX_VIEWS cfg) (metric COL_VIEWS r)) (rows df)))
       \<and> (MIN_COMMENTS cfg = 0 \<and> MIN_LIKES cfg = 0 \<and> MIN_VIEWS cfg = 0
          \<and> MAX_COMMENTS cfg = None \<and> MAX_LIKES cfg = None \<and> MAX_VIEWS cfg = None \<longrightarrow>
           rows out = map without_helpers (rows df)
           \<and> length (rows out) = length (rows df))"
proof -
  note r = apply_video_filters_result(3) [OF assms]
  have c: "MIN_COMMENTS cfg = 0 \<Longrightarrow> within_bounds cfg = (\<lambda>r.
               meets_min (MIN_LIKES cfg) (metric COL_LIKES r)
             \<and> meets_min (MIN_VIEWS cfg) (metric COL_VIEWS r)
             \<and> meets_max (MAX_COMMENTS cfg) (metric COL_COMMENTS r)
             \<and> meets_max (MAX_LIKES cfg) (metric COL_LIKES r)
             \<and> meets_max (MAX_VIEWS cfg) (metric COL_VIEWS r))"
    by (rule ext) (simp add: within_bounds_def meets_min_zero)
  have l: "MIN_LIKES cfg = 0 \<Longrightarrow> within_bounds cfg = (\<lambda>r.
               meets_min (MIN_COMMENTS cfg) (metric COL_COMMENTS r)
             \<and> meets_min (MIN_VIEWS cfg) (metric COL_VIEWS r)
             \<and> meets_max (MAX_COMMENTS cfg) (metric COL_COMMENTS r)
             \<and> meets_max (MAX_LIKES cfg) (metric COL_LIKES r)
             \<and> meets_max (MAX_VIEWS cfg) (metric COL_VIEWS r))"
    by (rule ext) (simp add: within_bounds_def meets_min_zero)
  have v: "MIN_VIEWS cfg = 0 \<Longrightarrow> within_bounds cfg = (\<lambda>r.
               meets_min (MIN_COMMENTS cfg) (metric COL_COMMENTS r)
             \<and> meets_min (MIN_LIKES cfg) (metric COL_LIKES r)
             \<and> meets_max (MAX_COMMENTS cfg) (metric COL_COMMENTS r)
             \<and> meets_max (MAX_LIKES cfg) (metric COL_LIKES r)
             \<and> meets_max (MAX_VIEWS cfg) (metric COL_VIEWS r))"
    by (rule ext) (simp add: within_bounds_def meets_min_zero)
  have a: "MIN_COMMENTS cfg = 0 \<and> MIN_LIKES cfg = 0 \<and> MIN_VIEWS cfg = 0
          \<and> MAX_COMMENTS cfg = None \<and> MAX_LIKES cfg = None \<and> MAX_VIEWS cfg = None
       \<Longrightarrow> within_bounds cfg = (\<lambda>r. True)"
    by (rule ext) (simp add: within_bounds_def meets_min_zero meets_max_None)
  show ?thesis
    using r c l v a by simp
qed

theorem zero_minimum_never_excludes_witness:
  "apply_video_filters views_only_config three_videos =
     Inr (projr (apply_video_filters views_only_config three_videos))
   \<and> MIN_COMMENTS views_only_config = 0
   \<and> rows (projr (apply_video_filters views_only_config three_videos)) =
       map without_helpers (filter (\<lambda>r.
               meets_min (MIN_LIKES views_only_config) (metric COL_LIKES r)
             \<and> meets_min (MIN_VIEWS views_only_config) (metric COL_VIEWS r)
             \<and> meets_max (MAX_COMMENTS views_only_config) (metric COL_COMMENTS r)
             \<and> meets_max (MAX_LIKES views_only_config) (metric COL_LIKES r)
             \<and> meets_max (MAX_VIEWS views_only_config) (metric COL_VIEWS r)) (rows three_videos))
   \<and> map (\<lambda>r. metric COL_COMMENTS r) (rows three_videos) = [0, 0, 31]
   \<and> map (\<lambda>r. r COL_URL) (rows (projr (apply_video_filters views_only_config three_videos))) =
       [Some (CStr ''https://www.youtube.com/watch?v=two''),
        Some (CStr ''https://www.youtube.com/watch?v=three'')]"
proof -
  have "\<not> isl (apply_video_filters views_only_config three_videos)"
    by code_simp
  then have h: "apply_video_filters views_only_config three_videos =
     Inr (projr (apply_video_filters views_only_config three_videos))"
    by simp
  have z: "MIN_COMMENTS views_only_config = 0"
    by (simp add: views_only_config_def)
  have m: "map (\<lambda>r. metric COL_COMMENTS r) (rows three_videos) = [0, 0, 31]"
    by code_simp
  have u: "map (\<lambda>r. r COL_URL) (rows (projr (apply_video_filters views_only_config three_videos))) =
       [Some (CStr ''https://www.youtube.com/watch?v=two''),
        Some (CStr ''https://www.youtube.com/watch?v=three'')]"
    by code_simp
  from zero_minimum_never_excludes [OF h] z h m u show ?thesis
    by blast
qed

text \<open>
  C5. Applying the filter to its own result, with the same bounds, gives that result
  again; when the first application raises there is no second one.
\<close>

theorem filter_twice_is_filter_once:
  "and_then (apply_video_filters cfg df) (apply_video_filters cfg) = apply_video_filters cfg df"
  by (rule apply_video_filters_idem)

theorem filter_twice_is_filter_once_witness:
  "\<not> isl (apply_video_filters views_only_config three_videos)
   \<and> apply_video_filters views_only_config
        (projr (apply_video_filters views_only_config three_videos)) =
      apply_video_filters views_only_config three_videos"
proof -
  have n: "\<not> isl (apply_video_filters views_only_config three_videos)"
    by code_simp
  then obtain out where o: "apply_video_filters views_only_config three_videos = Inr out"
    by (cases "apply_video_filters views_only_config three_videos") simp_all
  from filter_twice_is_filter_once [of views_only_config three_videos]
  have "apply_video_filters views_only_config out = Inr out"
    unfolding o by (simp add: and_then_Inr)
  with n o show ?thesis
    by simp
qed




section \<open>Properties of the scroll controller\<close>

lemma scroll_iteration_cases:
  assumes "scroll_iteration B cfg s w = (Inr (stop, s'), w')"
  obtains (grew) c where "observed_count B w = Some c" "last_comment_count s < c"
      "s' = s\<lparr>scroll_attempts := Suc (scroll_attempts s), last_comment_count := c,
               no_new_comments_count := 0\<rparr>" "\<not> stop"
  | (stalled) c where "observed_count B w = Some c" "\<not> last_comment_count s < c"
      "s' = s\<lparr>scroll_attempts := Suc (scroll_attempts s),
               no_new_comments_count := Suc (no_new_comments_count s)\<rparr>"
proof -
  obtain r1 w1 where y: "youtube_specific_scroll B w = (r1, w1)"
    by (cases "youtube_specific_scroll B w")
  obtain r2 w2 where g: "get_current_comments B w1 = (r2, w2)"
    by (cases "get_current_comments B w1")
  show thesis
  proof (cases r1)
    case (Inl e)
    with assms y show ?thesis
      by (simp add: scroll_iteration_def Let_def)
  next
    case r1: (Inr success)
    show ?thesis
    proof (cases r2)
      case (Inl e)
      with assms y g r1 show ?thesis
        by (simp add: scroll_iteration_def Let_def)
    next
      case r2: (Inr cc)
      have oc: "observed_count B w = Some (length cc)"
        by (simp add: observed_count_def y g r1 r2)
      show ?thesis
      proof (cases "last_comment_count s < length cc")
        case True
        with assms y g r1 r2 have "s' = s\<lparr>scroll_attempts := Suc (scroll_attempts s),
            last_comment_count := length cc, no_new_comments_count := 0\<rparr>" "\<not> stop"
          by (simp_all add: scroll_iteration_def Let_def has_new_comments_def)
        with oc True show ?thesis
          by (rule grew)
      next
        case False
        let ?s2 = "s\<lparr>scroll_attempts := Suc (scroll_attempts s),
               no_new_comments_count := Suc (no_new_comments_count s)\<rparr>"
        let ?w3 = "if MAX_NO_NEW_COMMENTS cfg div 2 \<le> no_new_comments_count ?s2
                      \<and> last_comment_count ?s2 < 50
                   then extra_patient_scroll B w2 else w2"
        obtain r4 w4 where st: "should_stop_scrolling B cfg (no_new_comments_count ?s2)
            (last_comment_count ?s2) ?w3 = (r4, w4)"
          by (cases "should_stop_scrolling B cfg (no_new_comments_count ?s2)
            (last_comment_count ?s2) ?w3")
        have it: "scroll_iteration B cfg s w =
            (case r4 of Inl e \<Rightarrow> (Inl e, w4) | Inr stop \<Rightarrow> (Inr (stop, ?s2), w4))"
          using False st
          by (simp add: scroll_iteration_def Let_def has_new_comments_def y g r1 r2)
        have "s' = ?s2"
          using assms it by (cases r4) simp_all
        with oc False show ?thesis
          by (rule stalled)
      qed
    qed
  qed
qed

lemma scroll_iteration_attempts:
  assumes "scroll_iteration B cfg s w = (Inr (stop, s'), w')"
  shows "scroll_attempts s' = Suc (scroll_attempts s)"
  using assms by (cases rule: scroll_iteration_cases) simp_all

lemma scroll_iteration_counts:
  assumes "scroll_iteration B cfg s w = (Inr (stop, s'), w')"
  shows "\<exists>c. observed_count B w = Some c
     \<and> (if last_comment_count s < c
        then last_comment_count s' = c \<and> no_new_comments_count s' = 0 \<and> \<not> stop
        else last_comment_count s' = last_comment_count s
           \<and> no_new_comments_count s' = no_new_comments_count s + 1)"
  using assms by (cases rule: scroll_iteration_cases) simp_all

lemma scroll_iteration_mono:
  assumes "scroll_iteration B cfg s w = (Inr (stop, s'), w')"
  shows "last_comment_count s \<le> last_comment_count s'"
  using assms by (cases rule: scroll_iteration_cases) simp_all

lemma scroll_states_sorted_from:
  "sorted (map last_comment_count (scroll_states B cfg s w))
   \<and> (\<forall>t \<in> set (scroll_states B cfg s w). last_comment_count s \<le> last_comment_count t)"
proof (induction B cfg s w rule: scroll_states.induct)
  case (1 B cfg s w)
  show ?case
  proof (cases "scroll_attempts s < MAX_SCROLL_ATTEMPTS cfg")
    case False
    then show ?thesis by (simp add: scroll_states.simps [of B cfg s w])
  next
    case True
    obtain r w' where it: "scroll_iteration B cfg s w = (r, w')"
      by (cases "scroll_iteration B cfg s w")
    show ?thesis
    proof (cases r)
      case (Inl e)
      with True it show ?thesis by (simp add: scroll_states.simps [of B cfg s w])
    next
      case (Inr p)
      obtain stop s' where p: "p = (stop, s')"
        by (cases p)
      have it': "scroll_iteration B cfg s w = (Inr (stop, s'), w')"
        using it Inr p by simp
      have m: "last_comment_count s \<le> last_comment_count s'"
        by (rule scroll_iteration_mono [OF it'])
      show ?thesis
      proof (cases stop)
        case True
        with \<open>scroll_attempts s < MAX_SCROLL_ATTEMPTS cfg\<close> it Inr p m show ?thesis
          by (simp add: scroll_states.simps [of B cfg s w])
      next
        case False
        have ih: "sorted (map last_comment_count (scroll_states B cfg s' w'))
          \<and> (\<forall>t \<in> set (scroll_states B cfg s' w'). last_comment_count s' \<le> last_comment_count t)"
          using "1.IH" [OF True it [symmetric] Inr p [symmetric] False] .
        have "scroll_states B cfg s w = s' # scroll_states B cfg s' w'"
          using True it Inr p False by (simp add: scroll_states.simps [of B cfg s w])
        with ih m show ?thesis
          by auto
      qed
    qed
  qed
qed

lemma scroll_states_sorted:
  "sorted (map last_comment_count (s # scroll_states B cfg s w))"
  using scroll_states_sorted_from [of B cfg s w] by simp

lemma scroll_loop_trace:
  "scroll_loop B cfg s w = (Inr t, wt) \<Longrightarrow>
   t = last (s # scroll_states B cfg s w)
   \<and> scroll_attempts t = scroll_attempts s + length (scroll_states B cfg s w)"
proof (induction B cfg s w rule: scroll_loop.induct)
  case (1 B cfg s w)
  show ?case
  proof (cases "scroll_attempts s < MAX_SCROLL_ATTEMPTS cfg")
    case False
    then have "scroll_states B cfg s w = []" "scroll_loop B cfg s w = (Inr s, w)"
      by (simp_all add: scroll_states.simps [of B cfg s w] scroll_loop.simps [of B cfg s w])
    with "1.prems" show ?thesis
      by auto
  next
    case True
    obtain r w' where it: "scroll_iteration B cfg s w = (r, w')"
      by (cases "scroll_iteration B cfg s w")
    show ?thesis
    proof (cases r)
      case (Inl e)
      with True it have "scroll_loop B cfg s w = (Inl e, w')"
        by (simp add: scroll_loop.simps [of B cfg s w])
      with "1.prems" show ?thesis
        by simp
    next
      case (Inr p)
      obtain stop s' where p: "p = (stop, s')"
        by (cases p)
      have it': "scroll_iteration B cfg s w = (Inr (stop, s'), w')"
        using it Inr p by simp
      have a: "scroll_attempts s' = Suc (scroll_attempts s)"
        by (rule scroll_iteration_attempts [OF it'])
      show ?thesis
      proof (cases stop)
        case True
        with \<open>scroll_attempts s < MAX_SCROLL_ATTEMPTS cfg\<close> it Inr p
        have "scroll_states B cfg s w = [s']" "scroll_loop B cfg s w = (Inr s', w')"
          by (simp_all add: scroll_states.simps [of B cfg s w] scroll_loop.simps [of B cfg s w])
        with a "1.prems" show ?thesis
          by auto
      next
        case False
        have l: "scroll_loop B cfg s' w' = (Inr t, wt)"
          using "1.prems" True it Inr p False by (simp add: scroll_loop.simps [of B cfg s w])
        have ih: "t = last (s' # scroll_states B cfg s' w')
          \<and> scroll_attempts t = scroll_attempts s' + length (scroll_states B cfg s' w')"
          using "1.IH" [OF True it [symmetric] Inr p [symmetric] False l] .
        have "scroll_states B cfg s w = s' # scroll_states B cfg s' w'"
          using True it Inr p False by (simp add: scroll_states.simps [of B cfg s w])
        with ih a show ?thesis
          by auto
      qed
    qed
  qed
qed

lemma scroll_states_length:
  "length (scroll_states B cfg s w) \<le> MAX_SCROLL_ATTEMPTS cfg - scroll_attempts s"
proof (induction B cfg s w rule: scroll_states.induct)
  case (1 B cfg s w)
  show ?case
  proof (cases "scroll_attempts s < MAX_SCROLL_ATTEMPTS cfg")
    case False
    then show ?thesis by (simp add: scroll_states.simps [of B cfg s w])
  next
    case True
    obtain r w' where it: "scroll_iteration B cfg s w = (r, w')"
      by (cases "scroll_iteration B cfg s w")
    show ?thesis
    proof (cases r)
      case (Inl e)
      with True it show ?thesis by (simp add: scroll_states.simps [of B cfg s w])
    next
      case (Inr p)
      obtain stop s' where p: "p = (stop, s')"
        by (cases p)
      have it': "scroll_iteration B cfg s w = (Inr (stop, s'), w')"
        using it Inr p by simp
      have a: "scroll_attempts s' = Suc (scroll_attempts s)"
        by (rule scroll_iteration_attempts [OF it'])
      show ?thesis
      proof (cases stop)
        case True
        with \<open>scroll_attempts s < MAX_SCROLL_ATTEMPTS cfg\<close> it Inr p show ?thesis
          by (simp add: scroll_states.simps [of B cfg s w])
      next
        case False
        have ih: "length (scroll_states B cfg s' w') \<le> MAX_SCROLL_ATTEMPTS cfg - scroll_attempts s'"
          using "1.IH" [OF True it [symmetric] Inr p [symmetric] False] .
        have "scroll_states B cfg s w = s' # scroll_states B cfg s' w'"
          using True it Inr p False by (simp add: scroll_states.simps [of B cfg s w])
        with ih a True show ?thesis
          by auto
      qed
    qed
  qed
qed

text \<open>
  C6. Over the iterations of the scroll loop for one video the recorded comment count
  never decreases: an iteration that completes queries a count, and either that count is
  strictly above the recorded one, which then becomes the recorded count while the
  counter of consecutive stalls is set to 0, or the recorded count stays and the counter
  grows by 1.
\<close>

theorem observed_count_never_decreases:
  "sorted (map last_comment_count (s # scroll_states B cfg s w))
   \<and> (\<forall>t wt. scroll_loop B cfg s w = (Inr t, wt) \<longrightarrow>
         t = last (s # scroll_states B cfg s w)
         \<and> last_comment_count s \<le> last_comment_count t)
   \<and> (\<forall>stop s' w'. scroll_iteration B cfg s w = (Inr (stop, s'), w') \<longrightarrow>
         (\<exists>c. observed_count B w = Some c
            \<and> (if last_comment_count s < c
               then last_comment_count s' = c \<and> no_new_comments_count s' = 0 \<and> \<not> stop
               else last_comment_count s' = last_comment_count s
                  \<and> no_new_comments_count s' = no_new_comments_count s + 1)))"
proof -
  have a: "sorted (map last_comment_count (s # scroll_states B cfg s w))"
    by (rule scroll_states_sorted)
  have b: "t = last (s # scroll_states B cfg s w)
         \<and> last_comment_count s \<le> last_comment_count t"
    if l: "scroll_loop B cfg s w = (Inr t, wt)" for t wt
  proof -
    have t: "t = last (s # scroll_states B cfg s w)"
      using scroll_loop_trace [OF l] by simp
    have "last_comment_count s \<le> last_comment_count t"
    proof (cases "scroll_states B cfg s w = []")
      case True
      with t show ?thesis by simp
    next
      case False
      with t have "t \<in> set (scroll_states B cfg s w)"
        by simp
      with scroll_states_sorted_from [of B cfg s w] show ?thesis
        by blast
    qed
    with t show ?thesis
      by simp
  qed
  from a b scroll_iteration_counts [of B cfg s w] show ?thesis
    by blast
qed

theorem observed_count_never_decreases_witness:
  "map last_comment_count
     (start_state 1 # scroll_states (scripted growing) example_config (start_state 1)
        after_first_query) = [1, 2, 3, 4, 4]
   \<and> sorted (map last_comment_count
     (start_state 1 # scroll_states (scripted growing) example_config (start_state 1)
        after_first_query))"
proof -
  have "map last_comment_count
     (start_state 1 # scroll_states (scripted growing) example_config (start_state 1)
        after_first_query) = [1, 2, 3, 4, 4]"
    by code_simp
  with observed_count_never_decreases
         [of "start_state 1" "scripted growing" example_config after_first_query]
  show ?thesis
    by blast
qed

text \<open>
  C7. The scroll loop ends after at most \<open>MAX_SCROLL_ATTEMPTS\<close> iterations, whatever
  the page shows and for every patience limit: the number of its iterations is bounded
  by the attempts that are left, and the attempt counter of the state it returns is the
  number of iterations made and does not exceed the bound. The controller reports
  success exactly when the comments region was found and the count returned is positive.
\<close>

theorem scroll_loop_is_bounded:
  "length (scroll_states B cfg s w) \<le> MAX_SCROLL_ATTEMPTS cfg - scroll_attempts s
   \<and> (\<forall>t wt. scroll_loop B cfg s w = (Inr t, wt) \<longrightarrow>
         scroll_attempts t = scroll_attempts s + length (scroll_states B cfg s w)
         \<and> (scroll_attempts s \<le> MAX_SCROLL_ATTEMPTS cfg \<longrightarrow>
              scroll_attempts t \<le> MAX_SCROLL_ATTEMPTS cfg))
   \<and> (\<forall>cs w1 t w2. get_current_comments B w = (Inr cs, w1)
         \<and> scroll_loop B cfg (start_state (length cs)) w1 = (Inr t, w2) \<longrightarrow>
         perform_smart_scroll B cfg w = (Inr (last_comment_count t), w2)
         \<and> scroll_attempts t \<le> MAX_SCROLL_ATTEMPTS cfg)
   \<and> (fst (smart_infinite_scroll B cfg w) \<longleftrightarrow>
        (\<exists>w1 n w2. scroll_to_comments_section B w = (Inr True, w1)
           \<and> perform_smart_scroll B cfg w1 = (Inr n, w2) \<and> 0 < n))"
proof -
  have a: "length (scroll_states B cfg s w) \<le> MAX_SCROLL_ATTEMPTS cfg - scroll_attempts s"
    by (rule scroll_states_length)
  have b: "scroll_attempts t = scroll_attempts s + length (scroll_states B cfg s w)
         \<and> (scroll_attempts s \<le> MAX_SCROLL_ATTEMPTS cfg \<longrightarrow>
              scroll_attempts t \<le> MAX_SCROLL_ATTEMPTS cfg)"
    if l: "scroll_loop B cfg s w = (Inr t, wt)" for t wt
    using scroll_loop_trace [OF l] a by auto
  have c: "perform_smart_scroll B cfg w = (Inr (last_comment_count t), w2)
         \<and> scroll_attempts t \<le> MAX_SCROLL_ATTEMPTS cfg"
    if g: "get_current_comments B w = (Inr cs, w1)"
      and l: "scroll_loop B cfg (start_state (length cs)) w1 = (Inr t, w2)" for cs w1 t w2
  proof -
    have "perform_smart_scroll B cfg w = (Inr (last_comment_count t), w2)"
      using g l by (simp add: perform_smart_scroll_def start_state_def)
    moreover have "scroll_attempts t \<le> MAX_SCROLL_ATTEMPTS cfg"
    proof -
      have "scroll_attempts t = scroll_attempts (start_state (length cs))
          + length (scroll_states B cfg (start_state (length cs)) w1)"
        using scroll_loop_trace [OF l] by (rule conjunct2)
      moreover have "scroll_attempts (start_state (length cs)) = 0"
        by (simp add: start_state_def)
      ultimately show ?thesis
        using scroll_states_length [of B cfg "start_state (length cs)" w1] by simp
    qed
    ultimately show ?thesis
      by simp
  qed
  have d: "fst (smart_infinite_scroll B cfg w) \<longleftrightarrow>
        (\<exists>w1 n w2. scroll_to_comments_section B w = (Inr True, w1)
           \<and> perform_smart_scroll B cfg w1 = (Inr n, w2) \<and> 0 < n)"
    by (auto simp: smart_infinite_scroll_def split: prod.splits sum.splits)
  from a b c d show ?thesis
    by blast
qed

theorem scroll_loop_is_bounded_witness:
  "scroll_loop (scripted growing) example_config (start_state 1) after_first_query =
     (Inr \<lparr> last_comment_count = 4, scroll_attempts = 4, no_new_comments_count = 1 \<rparr>,
      \<lparr> clock_reads = 0, page = CStr [], polls = 8, advances = 7 \<rparr>)
   \<and> scroll_attempts \<lparr> last_comment_count = 4, scroll_attempts = 4, no_new_comments_count = 1 \<rparr>
       = scroll_attempts (start_state 1)
         + length (scroll_states (scripted growing) example_config (start_state 1)
                     after_first_query)
   \<and> length (scroll_states (scripted growing) example_config (start_state 1) after_first_query)
       \<le> MAX_SCROLL_ATTEMPTS example_config - scroll_attempts (start_state 1)"
proof -
  have l: "scroll_loop (scripted growing) example_config (start_state 1) after_first_query =
     (Inr \<lparr> last_comment_count = 4, scroll_attempts = 4, no_new_comments_count = 1 \<rparr>,
      \<lparr> clock_reads = 0, page = CStr [], polls = 8, advances = 7 \<rparr>)"
    by code_simp
  from scroll_loop_is_bounded
         [of "scripted growing" example_config "start_state 1" after_first_query] l
  show ?thesis
    by blast
qed








section \<open>Properties of the run orchestrator\<close>

lemma record_failure_state:
  "all_comments (fst (record_failure B url reason st w)) = all_comments st"
  "processed_videos (fst (record_failure B url reason st w)) = processed_videos st"
  "failed_videos (fst (record_failure B url reason st w)) =
     failed_videos st @ [\<lparr> failed_url = url, failed_reason = reason,
                            failed_timestamp = fst (now_isoformat B w) \<rparr>]"
  by (simp_all add: record_failure_def split: prod.splits)

lemma scrape_unavailable:
  assumes "check_video_availability B url w = (False, w1)"
  shows "scrape_video_comments B cfg url vd st w =
     (([], fst (record_failure B url ''Video unavailable'' st w1)),
      snd (record_failure B url ''Video unavailable'' st w1))"
  using assms by (simp add: scrape_video_comments_def split: prod.splits)

lemma process_video_unavailable:
  assumes "COL_URL \<in> set cols"
    and "\<not> fst (check_video_availability B (dict_get row COL_URL (CFloat NaN)) w)"
  shows "process_video B cfg cols row st w =
     record_failure B (dict_get row COL_URL (CFloat NaN)) ''Video unavailable'' st
       (snd (check_video_availability B (dict_get row COL_URL (CFloat NaN)) w))"
proof -
  obtain w1 where c: "check_video_availability B (dict_get row COL_URL (CFloat NaN)) w = (False, w1)"
    using assms(2) by (cases "check_video_availability B (dict_get row COL_URL (CFloat NaN)) w") simp
  show ?thesis
    using assms(1) by (simp add: process_video_def Let_def scrape_unavailable [OF c] c)
qed

lemma scrape_appends_failures:
  "\<exists>fs. failed_videos (snd (fst (scrape_video_comments B cfg url vd st w))) = failed_videos st @ fs
      \<and> all_comments (snd (fst (scrape_video_comments B cfg url vd st w))) = all_comments st
      \<and> processed_videos (snd (fst (scrape_video_comments B cfg url vd st w))) = processed_videos st"
proof -
  obtain a w1 where c: "check_video_availability B url w = (a, w1)"
    by (cases "check_video_availability B url w")
  obtain b w2 where s: "smart_infinite_scroll B cfg w1 = (b, w2)"
    by (cases "smart_infinite_scroll B cfg w1")
  obtain r w3 where g: "get_current_comments B w2 = (r, w3)"
    by (cases "get_current_comments B w2")
  show ?thesis
  proof (cases a)
    case False
    then show ?thesis
      using c by (simp add: scrape_unavailable record_failure_state)
  next
    case a: True
    show ?thesis
    proof (cases b)
      case False
      then show ?thesis
        using c s a by (simp add: scrape_video_comments_def)
    next
      case b: True
      show ?thesis
      proof (cases r)
        case (Inl e)
        then show ?thesis
          using c s g a b record_failure_state [of B url "exn_text e" st w3]
          by (simp add: scrape_video_comments_def split: prod.splits) (metis fst_conv)
      next
        case (Inr els)
        then show ?thesis
          using c s g a b by (simp add: scrape_video_comments_def split: prod.splits)
      qed
    qed
  qed
qed

lemma process_video_appends:
  "\<exists>cs ps fs. all_comments (fst (process_video B cfg cols row st w)) = all_comments st @ cs
     \<and> processed_videos (fst (process_video B cfg cols row st w)) = processed_videos st @ ps
     \<and> failed_videos (fst (process_video B cfg cols row st w)) = failed_videos st @ fs"
proof (cases "COL_URL \<in> set cols")
  case False
  then show ?thesis
    by (simp add: process_video_def)
next
  case True
  let ?url = "dict_get row COL_URL (CFloat NaN)"
  obtain comments st1 w1 where sc: "scrape_video_comments B cfg ?url row st w = ((comments, st1), w1)"
    by (cases "scrape_video_comments B cfg ?url row st w") auto
  from scrape_appends_failures [of B cfg ?url row st w] sc
  obtain fs where f: "failed_videos st1 = failed_videos st @ fs"
    "all_comments st1 = all_comments st" "processed_videos st1 = processed_videos st"
    by auto
  show ?thesis
    using True sc f by (simp add: process_video_def Let_def)
qed

lemma process_rows_appends:
  "\<exists>cs ps fs. all_comments (fst (process_rows B cfg cols rs st w)) = all_comments st @ cs
     \<and> processed_videos (fst (process_rows B cfg cols rs st w)) = processed_videos st @ ps
     \<and> failed_videos (fst (process_rows B cfg cols rs st w)) = failed_videos st @ fs"
proof (induction rs arbitrary: st w)
  case Nil
  then show ?case by simp
next
  case (Cons row rest)
  obtain st1 w1 where pv: "process_video B cfg cols row st w = (st1, w1)"
    by (cases "process_video B cfg cols row st w")
  from process_video_appends [of B cfg cols row st w] pv
  obtain cs ps fs where 1: "all_comments st1 = all_comments st @ cs"
    "processed_videos st1 = processed_videos st @ ps" "failed_videos st1 = failed_videos st @ fs"
    by auto
  from Cons.IH [of st1 w1]
  obtain cs' ps' fs' where 2:
    "all_comments (fst (process_rows B cfg cols rest st1 w1)) = all_comments st1 @ cs'"
    "processed_videos (fst (process_rows B cfg cols rest st1 w1)) = processed_videos st1 @ ps'"
    "failed_videos (fst (process_rows B cfg cols rest st1 w1)) = failed_videos st1 @ fs'"
    by auto
  show ?case
    using pv 1 2 by simp
qed

lemma process_rows_step:
  "process_rows B cfg cols (row # rest) st w =
     process_rows B cfg cols rest (fst (process_video B cfg cols row st w))
       (snd (process_video B cfg cols row st w))"
  by (simp add: split_beta)

lemma three_videos_run:
  "map video_url (all_comments (projr (fst (process_videos (scripted second_fails) open_config
       three_videos initial_world)))) = [url_one, url_one, url_three]
   \<and> map comment_text (all_comments (projr (fst (process_videos (scripted second_fails)
       open_config three_videos initial_world)))) = [''first'', ''again'', ''third'']
   \<and> processed_videos (projr (fst (process_videos (scripted second_fails) open_config
       three_videos initial_world))) = [url_one, url_three]
   \<and> map failed_url (failed_videos (projr (fst (process_videos (scripted second_fails)
       open_config three_videos initial_world)))) = [url_two]
   \<and> map failed_reason (failed_videos (projr (fst (process_videos (scripted second_fails)
       open_config three_videos initial_world)))) = [''Video unavailable'']"
  by code_simp

text \<open>
  C9. A video that fails the availability check adds exactly one entry to the failed
  list, with its URL and the reason \<open>Video unavailable\<close>, and leaves the accumulated
  comments and the processed list as they were; the loop then goes on to the remaining
  rows, and nothing that the run has accumulated is ever removed. With the three videos
  of which only the second is unavailable, the output has the comments of the first and
  the third and the failed list has the one entry of the second.
\<close>

theorem unavailable_video_is_recorded_and_skipped:
  "(COL_URL \<in> set cols
      \<and> \<not> fst (check_video_availability B (dict_get row COL_URL (CFloat NaN)) w) \<longrightarrow>
      all_comments (fst (process_video B cfg cols row st w)) = all_comments st
      \<and> processed_videos (fst (process_video B cfg cols row st w)) = processed_videos st
      \<and> (\<exists>instant. failed_videos (fst (process_video B cfg cols row st w)) =
            failed_videos st @ [\<lparr> failed_url = dict_get row COL_URL (CFloat NaN),
                                   failed_reason = ''Video unavailable'',
                                   failed_timestamp = instant \<rparr>]))
   \<and> process_rows B cfg cols (row # rest) st w =
       process_rows B cfg cols rest (fst (process_video B cfg cols row st w))
         (snd (process_video B cfg cols row st w))
   \<and> (\<exists>cs ps fs.
         all_comments (fst (process_rows B cfg cols rest st w)) = all_comments st @ cs
       \<and> processed_videos (fst (process_rows B cfg cols rest st w)) = processed_videos st @ ps
       \<and> failed_videos (fst (process_rows B cfg cols rest st w)) = failed_videos st @ fs)
   \<and> map video_url (all_comments (projr (fst (process_videos (scripted second_fails)
         open_config three_videos initial_world)))) = [url_one, url_one, url_three]
   \<and> processed_videos (projr (fst (process_videos (scripted second_fails) open_config
         three_videos initial_world))) = [url_one, url_three]
   \<and> map failed_url (failed_videos (projr (fst (process_videos (scripted second_fails)
         open_config three_videos initial_world)))) = [url_two]
   \<and> map failed_reason (failed_videos (projr (fst (process_videos (scripted second_fails)
         open_config three_videos initial_world)))) = [''Video unavailable'']"
proof -
  have a: "all_comments (fst (process_video B cfg cols row st w)) = all_comments st
      \<and> processed_videos (fst (process_video B cfg cols row st w)) = processed_videos st
      \<and> (\<exists>instant. failed_videos (fst (process_video B cfg cols row st w)) =
            failed_videos st @ [\<lparr> failed_url = dict_get row COL_URL (CFloat NaN),
                                   failed_reason = ''Video unavailable'',
                                   failed_timestamp = instant \<rparr>])"
    if h: "COL_URL \<in> set cols
      \<and> \<not> fst (check_video_availability B (dict_get row COL_URL (CFloat NaN)) w)"
  proof -
    from h have "process_video B cfg cols row st w =
       record_failure B (dict_get row COL_URL (CFloat NaN)) ''Video unavailable'' st
         (snd (check_video_availability B (dict_get row COL_URL (CFloat NaN)) w))"
      by (simp add: process_video_unavailable)
    then show ?thesis
      by (simp add: record_failure_state)
  qed
  note b = process_rows_step [of B cfg cols row rest st w]
  note c = process_rows_appends [of B cfg cols rest st w]
  from a b c three_videos_run show ?thesis
    by blast
qed

theorem unavailable_video_is_recorded_and_skipped_witness:
  "COL_URL \<in> set metric_columns
   \<and> \<not> fst (check_video_availability (scripted second_fails)
              (dict_get (rows three_videos ! 1) COL_URL (CFloat NaN)) initial_world)
   \<and> all_comments (fst (process_video (scripted second_fails) open_config metric_columns
         (rows three_videos ! 1) new_run initial_world)) = all_comments new_run
   \<and> map failed_url (failed_videos (fst (process_video (scripted second_fails) open_config
         metric_columns (rows three_videos ! 1) new_run initial_world))) = [url_two]"
proof -
  have h: "COL_URL \<in> set metric_columns
   \<and> \<not> fst (check_video_availability (scripted second_fails)
              (dict_get (rows three_videos ! 1) COL_URL (CFloat NaN)) initial_world)"
    by code_simp
  have u: "dict_get (rows three_videos ! 1) COL_URL (CFloat NaN) = url_two"
    by code_simp
  have n: "failed_videos new_run = []"
    by (simp add: new_run_def)
  note t = unavailable_video_is_recorded_and_skipped
      [of metric_columns "scripted second_fails" "rows three_videos ! 1" initial_world
          open_config new_run "[]"]
  from t [THEN conjunct1] h
  have "all_comments (fst (process_video (scripted second_fails) open_config metric_columns
         (rows three_videos ! 1) new_run initial_world)) = all_comments new_run"
    and "\<exists>instant. failed_videos (fst (process_video (scripted second_fails) open_config
         metric_columns (rows three_videos ! 1) new_run initial_world)) =
            failed_videos new_run @ [\<lparr> failed_url = dict_get (rows three_videos ! 1) COL_URL (CFloat NaN),
                                   failed_reason = ''Video unavailable'',
                                   failed_timestamp = instant \<rparr>]"
    by blast+
  then show ?thesis
    using h u n by auto
qed

end
